theory Spec2Isabelle
  imports Complex_Main
begin

section \<open>The fit and uncertainty engine of gmf_calculator.py\<close>

text \<open>
  The class \<open>RuptureGmf\<close> of \<open>src/gmf_calculator.py\<close> is embedded by explicit state
  passing. numpy's float64 arrays are modelled as lists of reals (the rounding of floating
  point arithmetic is not modelled); where numpy would leave
  the reals (a division by zero giving inf or nan, the square root of a negative number)
  the model stops with \<open>NonFinite\<close>. The only nan that is followed further is the one that
  scipy's \<open>ppf\<close> returns for a scale that is not positive, since the code compares the
  misfits against it.
\<close>

subsection \<open>Errors and results\<close>

datatype error =
    AttributeError
  | ValueError
  | IndexError
  | KeyError
  | ZeroDivisionError
  | NonFinite
  | OtherError

definition seq :: "error + 'a \<Rightarrow> ('a \<Rightarrow> error + 'b) \<Rightarrow> error + 'b" where
  "seq r f = (case r of Inl e \<Rightarrow> Inl e | Inr v \<Rightarrow> f v)"

definition attr :: "'a option \<Rightarrow> error + 'a" where
  "attr a = (case a of None \<Rightarrow> Inl AttributeError | Some v \<Rightarrow> Inr v)"

subsection \<open>Data\<close>

record rupture =
  mag :: real
  longitude :: real
  latitude :: real
  depth :: real
  strike :: real
  dip :: real

text \<open>A frozen scipy distribution \<open>norm(loc, scale)\<close>.\<close>

record norm_frozen =
  loc :: real
  scale :: real

datatype printed =
    PStr string
  | PNum real
  | PNan
  | PList string "real list"

text \<open>
  The attributes of a \<open>RuptureGmf\<close> object that the fitting methods read or write. An
  attribute that has not been assigned yet is \<open>None\<close>; reading it raises AttributeError.
\<close>

record state =
  rupture_list :: "rupture list"
  mmi_list :: "real list list"
  mmi_obs :: "real list option"
  sum_squares_list :: "real list option"
  rmse :: "real list option"
  best_rupture :: "rupture option"
  min_rmse :: "real option"
  sigma :: "real option"
  uncert_fun :: "norm_frozen option"
  fitted_ruptures :: "rupture list option"
  fitted_mags :: "real list option"
  fitted_lons :: "real list option"
  fitted_lats :: "real list option"
  fitted_depths :: "real list option"
  fitted_strikes :: "real list option"
  fitted_dips :: "real list option"
  min_mag :: "real option"
  max_mag :: "real option"
  min_lon :: "real option"
  max_lon :: "real option"
  min_lat :: "real option"
  max_lat :: "real option"
  min_depth :: "real option"
  max_depth :: "real option"
  min_strike :: "real option"
  max_strike :: "real option"
  min_dip :: "real option"
  max_dip :: "real option"
  stdout :: "printed list"

text \<open>
  The object after \<open>__init__\<close>, \<open>calculate\<close> and \<open>rsa2mmi\<close> have filled the rupture list
  and the intensity fields (these call OpenQuake and are outside the embedding): no
  derived attribute exists yet.
\<close>

definition store :: "rupture list \<Rightarrow> real list list \<Rightarrow> state" where
  "store rups mmis =
     \<lparr> rupture_list = rups, mmi_list = mmis, mmi_obs = None, sum_squares_list = None,
       rmse = None, best_rupture = None, min_rmse = None, sigma = None, uncert_fun = None,
       fitted_ruptures = None, fitted_mags = None, fitted_lons = None, fitted_lats = None,
       fitted_depths = None, fitted_strikes = None, fitted_dips = None,
       min_mag = None, max_mag = None, min_lon = None, max_lon = None,
       min_lat = None, max_lat = None, min_depth = None, max_depth = None,
       min_strike = None, max_strike = None, min_dip = None, max_dip = None,
       stdout = [] \<rparr>"

subsection \<open>numpy on one-dimensional arrays\<close>

text \<open>
  \<open>a - b\<close> on arrays: elementwise on equal lengths, a length-one operand is broadcast,
  any other pair of shapes raises ValueError.
\<close>

definition np_sub :: "real list \<Rightarrow> real list \<Rightarrow> error + real list" where
  "np_sub a b =
     (if length a = length b then Inr (map (\<lambda>(x, y). x - y) (zip a b))
      else if length a = 1 then Inr (map (\<lambda>y. hd a - y) b)
      else if length b = 1 then Inr (map (\<lambda>x. x - hd b) a)
      else Inl ValueError)"

text \<open>\<open>np.dot\<close> of two one-dimensional arrays: the lengths must agree.\<close>

definition np_dot :: "real list \<Rightarrow> real list \<Rightarrow> error + real" where
  "np_dot a b =
     (if length a = length b then Inr (sum_list (map (\<lambda>(x, y). x * y) (zip a b)))
      else Inl ValueError)"

text \<open>\<open>np.sqrt\<close> of an array; a negative entry would give nan.\<close>

definition np_sqrt :: "real list \<Rightarrow> error + real list" where
  "np_sqrt xs = (if \<exists>x \<in> set xs. x < 0 then Inl NonFinite else Inr (map sqrt xs))"

text \<open>\<open>np.array(xs) / float(n)\<close>; a zero divisor gives inf or nan in every entry.\<close>

definition np_div_len :: "real list \<Rightarrow> nat \<Rightarrow> error + real list" where
  "np_div_len xs n =
     (if n = 0 \<and> xs \<noteq> [] then Inl NonFinite else Inr (map (\<lambda>x. x / real n) xs))"

subsection \<open>Misfit evaluator\<close>

text \<open>The loop of \<open>calc_sum_squares_mmi\<close>: one sum of squared residuals per field.\<close>

fun sum_squares_loop :: "real list \<Rightarrow> real list list \<Rightarrow> error + real list" where
  "sum_squares_loop obs [] = Inr []"
| "sum_squares_loop obs (mmi # rest) =
     seq (np_sub mmi obs) (\<lambda>d.
     seq (sum_squares_loop obs rest) (\<lambda>r.
       Inr (sum_list (map (\<lambda>x. x ^ 2) d) # r)))"

definition calc_sum_squares_mmi :: "real list \<Rightarrow> state \<Rightarrow> error + state" where
  "calc_sum_squares_mmi obs s =
     seq (sum_squares_loop obs (mmi_list s)) (\<lambda>ss.
       Inr (s\<lparr>sum_squares_list := Some ss\<rparr>))"

text \<open>
  The loop of \<open>calc_sum_squares_mmi_weighted\<close>. The weights are rescaled inside the loop,
  on every pass, by \<open>1./sum(weights)\<close>: Python's \<open>sum\<close> of an empty array is the integer 0
  and the division raises; a zero sum of a non-empty array gives inf.
\<close>

fun weighted_loop :: "real list \<Rightarrow> real list \<Rightarrow> real list list \<Rightarrow> error + real list" where
  "weighted_loop obs w [] = Inr []"
| "weighted_loop obs w (mmi # rest) =
     (if w = [] then Inl ZeroDivisionError
      else if sum_list w = 0 then Inl NonFinite
      else
        let w' = map (\<lambda>x. x * (1 / sum_list w)) w in
        seq (np_sub mmi obs) (\<lambda>d.
        seq (np_dot w' (map (\<lambda>x. x ^ 2) d)) (\<lambda>ss.
        seq (weighted_loop obs w' rest) (\<lambda>r.
          Inr (ss # r)))))"

definition calc_sum_squares_mmi_weighted ::
    "real list \<Rightarrow> real list \<Rightarrow> state \<Rightarrow> error + state" where
  "calc_sum_squares_mmi_weighted obs weights s =
     seq (weighted_loop obs weights (mmi_list s)) (\<lambda>ss.
       Inr (s\<lparr>sum_squares_list := Some ss\<rparr>))"

text \<open>
  \<open>calc_rmse\<close>: the observations are stored; the misfits are computed only when
  \<open>self.sum_squares_list\<close> does not exist yet (the \<open>try\<close> raises AttributeError).
\<close>

definition calc_rmse :: "real list \<Rightarrow> real list option \<Rightarrow> state \<Rightarrow> error + state" where
  "calc_rmse obs weights s0 =
     (let s = s0\<lparr>mmi_obs := Some obs\<rparr> in
      case sum_squares_list s of
        Some _ \<Rightarrow> Inr s
      | None \<Rightarrow>
          (case weights of
             Some w \<Rightarrow>
               seq (calc_sum_squares_mmi_weighted obs w s) (\<lambda>s1.
               seq (attr (sum_squares_list s1)) (\<lambda>ss.
               seq (np_sqrt ss) (\<lambda>r.
                 Inr (s1\<lparr>rmse := Some r\<rparr>))))
           | None \<Rightarrow>
               seq (calc_sum_squares_mmi obs s) (\<lambda>s1.
               seq (attr (sum_squares_list s1)) (\<lambda>ss.
               seq (np_div_len ss (length obs)) (\<lambda>q.
               seq (np_sqrt q) (\<lambda>r.
                 Inr (s1\<lparr>rmse := Some r\<rparr>)))))))"

text \<open>The misfit sequence of a result, for statements about the outcome of a call.\<close>

definition rmse_of :: "error + state \<Rightarrow> error + real list option" where
  "rmse_of r = (case r of Inl e \<Rightarrow> Inl e | Inr s \<Rightarrow> Inr (rmse s))"

subsection \<open>Best-fit selector\<close>

text \<open>
  \<open>np.argmin\<close> scans the array once and replaces the running best only by a strictly
  smaller value; an empty array raises ValueError.
\<close>

fun argmin_scan :: "nat \<Rightarrow> real \<Rightarrow> nat \<Rightarrow> real list \<Rightarrow> nat" where
  "argmin_scan bi bv i [] = bi"
| "argmin_scan bi bv i (x # xs) =
     (if x < bv then argmin_scan i x (Suc i) xs else argmin_scan bi bv (Suc i) xs)"

definition np_argmin :: "real list \<Rightarrow> error + nat" where
  "np_argmin xs = (case xs of [] \<Rightarrow> Inl ValueError | x # rest \<Rightarrow> Inr (argmin_scan 0 x 1 rest))"

text \<open>Indexing a list: an index past the end raises IndexError.\<close>

definition getitem :: "'a list \<Rightarrow> nat \<Rightarrow> error + 'a" where
  "getitem xs i = (if i < length xs then Inr (xs ! i) else Inl IndexError)"

definition find_best_fit :: "state \<Rightarrow> error + state" where
  "find_best_fit s =
     seq (attr (rmse s)) (\<lambda>r.
     seq (np_argmin r) (\<lambda>index.
     seq (getitem (rupture_list s) index) (\<lambda>rup.
     seq (getitem r index) (\<lambda>v.
       Inr (s\<lparr>best_rupture := Some rup, min_rmse := Some v\<rparr>)))))"

subsection \<open>Uncertainty estimator\<close>

text \<open>Python's \<open>min\<close> and \<open>max\<close> of a sequence: an empty one raises ValueError.\<close>

definition py_min :: "real list \<Rightarrow> error + real" where
  "py_min xs = (case xs of [] \<Rightarrow> Inl ValueError | x # rest \<Rightarrow> Inr (fold min rest x))"

definition py_max :: "real list \<Rightarrow> error + real" where
  "py_max xs = (case xs of [] \<Rightarrow> Inl ValueError | x # rest \<Rightarrow> Inr (fold max rest x))"

text \<open>
  \<open>ppf(0.975)\<close> of a frozen normal distribution. The argument \<open>z\<close> is the 97.5th
  percentile of the standard normal distribution (about 1.96), computed by scipy. scipy
  returns nan, here \<open>None\<close>, when the scale is not positive.
\<close>

definition ppf :: "real \<Rightarrow> norm_frozen \<Rightarrow> real option" where
  "ppf z d = (if 0 < scale d then Some (loc d + scale d * z) else None)"

text \<open>\<open>np.where(xs < t)[0]\<close>; every comparison with nan is false.\<close>

definition where_less :: "real list \<Rightarrow> real option \<Rightarrow> nat list" where
  "where_less xs t =
     (case t of None \<Rightarrow> [] | Some v \<Rightarrow> filter (\<lambda>i. xs ! i < v) [0..<length xs])"

definition print :: "printed \<Rightarrow> state \<Rightarrow> state" where
  "print p s = s\<lparr>stdout := stdout s @ [p]\<rparr>"

definition pnum :: "real option \<Rightarrow> printed" where
  "pnum v = (case v of None \<Rightarrow> PNan | Some x \<Rightarrow> PNum x)"

definition not_enough :: printed where
  "not_enough = PStr ''Not enough data points to calculate uncertainties''"

text \<open>
  Lines 238 to 246 of \<open>uncertainty_model\<close>: the branch on the number of observations,
  which yields the indices of the accepted candidates.
\<close>

definition select_indices :: "real \<Rightarrow> state \<Rightarrow> error + (state \<times> nat list)" where
  "select_indices z s =
     seq (attr (mmi_obs s)) (\<lambda>obs.
       if length obs \<le> 6 then
         let s1 = print not_enough s in
         seq (attr (rmse s1)) (\<lambda>r.
           Inr (s1, where_less r (Some (10 ^ 24))))
       else
         seq (attr (rmse s)) (\<lambda>r.
         seq (py_min r) (\<lambda>m.
           let sg = (1 / (real (length obs) - 6)) * m ^ 2;
               s1 = print (PNum sg) (s\<lparr>sigma := Some sg\<rparr>);
               d = \<lparr>loc = m, scale = sg\<rparr>;
               s2 = print (pnum (ppf z d)) (s1\<lparr>uncert_fun := Some d\<rparr>)
           in Inr (s2, where_less r (ppf z d)))))"

text \<open>The loop that collects \<open>self.rupture_list[index]\<close> for the accepted indices.\<close>

fun pick :: "'a list \<Rightarrow> nat list \<Rightarrow> error + 'a list" where
  "pick xs [] = Inr []"
| "pick xs (i # is) =
     seq (getitem xs i) (\<lambda>v.
     seq (pick xs is) (\<lambda>r.
       Inr (v # r)))"

text \<open>\<open>np.unique\<close>: the distinct values, sorted.\<close>

definition np_unique :: "real list \<Rightarrow> real list" where
  "np_unique xs = sort (remdups xs)"

definition uncertainty_model :: "real \<Rightarrow> state \<Rightarrow> error + state" where
  "uncertainty_model z s =
     seq (select_indices z s) (\<lambda>(s1, indices).
     seq (attr (rmse s1)) (\<lambda>r.
     seq (py_max r) (\<lambda>mx.
     seq (pick (rupture_list s1) indices) (\<lambda>fr.
       let s2 = (print (PList ''max rmse'' [mx]) s1)
                  \<lparr>fitted_ruptures := Some fr,
                   fitted_mags := Some (map mag fr),
                   fitted_lons := Some (map longitude fr),
                   fitted_lats := Some (map latitude fr),
                   fitted_depths := Some (map depth fr),
                   fitted_strikes := Some (map strike fr),
                   fitted_dips := Some (map dip fr)\<rparr>
       in
       seq (py_min (map mag fr)) (\<lambda>v1.
       seq (py_max (map mag fr)) (\<lambda>v2.
       seq (py_min (map longitude fr)) (\<lambda>v3.
       seq (py_max (map longitude fr)) (\<lambda>v4.
       seq (py_min (map latitude fr)) (\<lambda>v5.
       seq (py_max (map latitude fr)) (\<lambda>v6.
       seq (py_min (map depth fr)) (\<lambda>v7.
       seq (py_max (map depth fr)) (\<lambda>v8.
       seq (py_min (map strike fr)) (\<lambda>v9.
       seq (py_max (map strike fr)) (\<lambda>v10.
       seq (py_min (map dip fr)) (\<lambda>v11.
       seq (py_max (map dip fr)) (\<lambda>v12.
         Inr (print (PList ''dips'' (np_unique (map dip fr)))
             (print (PList ''strikes'' (np_unique (map strike fr)))
               (s2\<lparr>min_mag := Some v1, max_mag := Some v2,
                   min_lon := Some v3, max_lon := Some v4,
                   min_lat := Some v5, max_lat := Some v6,
                   min_depth := Some v7, max_depth := Some v8,
                   min_strike := Some v9, max_strike := Some v10,
                   min_dip := Some v11, max_dip := Some v12\<rparr>)))))))))))))))))))"

subsection \<open>Parameter-slice visualizer\<close>

text \<open>
  The interpolation and plotting calls of scipy and matplotlib are external: each is a
  parameter that tells how the call ends, \<open>None\<close> for a normal return and \<open>Some e\<close> for
  the exception it raises. \<open>heatmap\<close> stands for \<open>contourf\<close>, \<open>colorbar\<close>, \<open>set_ylabel\<close>
  and \<open>savefig\<close>, which share one \<open>try\<close> block.
\<close>

type_synonym grid = "real list list"

record plotting =
  griddata :: "real list \<Rightarrow> real list \<Rightarrow> real list \<Rightarrow> grid \<Rightarrow> grid \<Rightarrow> error + grid"
  contour :: "grid \<Rightarrow> grid \<Rightarrow> grid \<Rightarrow> real \<Rightarrow> real option \<Rightarrow> error option"
  heatmap :: "grid \<Rightarrow> grid \<Rightarrow> grid \<Rightarrow> real \<Rightarrow> real \<Rightarrow> error option"

definition parameter_space :: "state \<Rightarrow> real list list" where
  "parameter_space s =
     [map mag (rupture_list s), map longitude (rupture_list s),
      map latitude (rupture_list s), map depth (rupture_list s),
      map strike (rupture_list s), map dip (rupture_list s)]"

definition parameter_dict :: "string \<Rightarrow> nat option" where
  "parameter_dict =
     map_of [(''mag'', 0), (''longitude'', 1), (''latitude'', 2),
             (''depth'', 3), (''strike'', 4), (''dip'', 5)]"

definition lookup :: "string \<Rightarrow> error + nat" where
  "lookup k = (case parameter_dict k of None \<Rightarrow> Inl KeyError | Some i \<Rightarrow> Inr i)"

text \<open>\<open>np.where(xs == v)[0]\<close>, with the exact equality of the source.\<close>

definition where_eq :: "real list \<Rightarrow> real \<Rightarrow> nat list" where
  "where_eq xs v = filter (\<lambda>i. xs ! i = v) [0..<length xs]"

text \<open>\<open>np.intersect1d\<close>: the common values, distinct and sorted.\<close>

definition intersect1d :: "nat list \<Rightarrow> nat list \<Rightarrow> nat list" where
  "intersect1d j k = sort (remdups (filter (\<lambda>p. p \<in> set k) j))"

text \<open>
  The two nested loops over the distinct x and y values: a cell with at least one
  candidate contributes its x, its y and the least misfit of its candidates.
\<close>

definition cell :: "real list \<Rightarrow> real list \<Rightarrow> real list \<Rightarrow> real \<Rightarrow> real \<Rightarrow> (real \<times> real \<times> real) list" where
  "cell xvalues yvalues rmse_subset xi yi =
     (let j = where_eq xvalues xi;
          k = where_eq yvalues yi;
          i = intersect1d j k
      in if length i > 0
         then [(xi, yi, fold min (tl (map (\<lambda>p. rmse_subset ! p) i)) (hd (map (\<lambda>p. rmse_subset ! p) i)))]
         else [])"

definition cells :: "real list \<Rightarrow> real list \<Rightarrow> real list \<Rightarrow> (real \<times> real \<times> real) list" where
  "cells xvalues yvalues rmse_subset =
     concat (map (\<lambda>xi. concat (map (\<lambda>yi. cell xvalues yvalues rmse_subset xi yi)
                                     (np_unique yvalues)))
                 (np_unique xvalues))"

text \<open>
  \<open>np.mgrid[a:b:step, c:d:step']\<close> for positive steps: the two coordinate grids, each
  axis running from the lower bound in steps up to, and not including, the upper bound.
\<close>

definition arange :: "real \<Rightarrow> real \<Rightarrow> real \<Rightarrow> real list" where
  "arange lo hi step = map (\<lambda>k. lo + real k * step) [0..<nat \<lceil>(hi - lo) / step\<rceil>]"

definition mgrid :: "real list \<Rightarrow> real list \<Rightarrow> grid \<times> grid" where
  "mgrid ax ay = (map (\<lambda>x. map (\<lambda>_. x) ay) ax, map (\<lambda>_. ay) ax)"

text \<open>
  The first \<open>try\<close> block: the contour levels read \<open>self.sigma\<close> and \<open>self.uncert_fun\<close>;
  AttributeError is passed over silently, ValueError with a message, anything else
  propagates.
\<close>

definition only_one :: printed where
  "only_one = PStr ''only one best fit locations, cannnot plot locations uncertainty''"

definition try_contour :: "plotting \<Rightarrow> real \<Rightarrow> grid \<Rightarrow> grid \<Rightarrow> grid \<Rightarrow> state \<Rightarrow> error + state" where
  "try_contour env z xx yy rmse_grid s =
     (case seq (attr (sigma s)) (\<lambda>sg.
           seq (attr (uncert_fun s)) (\<lambda>d.
             case contour env xx yy rmse_grid sg (ppf z d) of
               None \<Rightarrow> Inr () | Some e \<Rightarrow> Inl e)) of
        Inr _ \<Rightarrow> Inr s
      | Inl AttributeError \<Rightarrow> Inr s
      | Inl ValueError \<Rightarrow> Inr (print only_one s)
      | Inl e \<Rightarrow> Inl e)"

text \<open>The second \<open>try\<close> block: only ValueError is caught.\<close>

definition try_heatmap :: "plotting \<Rightarrow> grid \<Rightarrow> grid \<Rightarrow> grid \<Rightarrow> state \<Rightarrow> error + state" where
  "try_heatmap env xx yy rmse_grid s =
     (case seq (attr (rmse s)) (\<lambda>r.
           seq (py_max r) (\<lambda>vmax.
           seq (py_min r) (\<lambda>vmin.
             case heatmap env xx yy rmse_grid vmax vmin of
               None \<Rightarrow> Inr () | Some e \<Rightarrow> Inl e))) of
        Inr _ \<Rightarrow> Inr s
      | Inl ValueError \<Rightarrow> Inr (print only_one s)
      | Inl e \<Rightarrow> Inl e)"

text \<open>\<open>self.rmse[indices]\<close> with an index array.\<close>

definition take_indices :: "real list \<Rightarrow> nat list \<Rightarrow> error + real list" where
  "take_indices xs is =
     (if list_all (\<lambda>i. i < length xs) is then Inr (map (\<lambda>i. xs ! i) is)
      else Inl IndexError)"

text \<open>
  Lines 301 to 354 of \<open>uncertainty_slice\<close>: the candidates whose z-parameter equals
  \<open>zvalue\<close>, their x and y values, and the cells built from them.
\<close>

definition slice_data ::
    "string \<Rightarrow> string \<Rightarrow> string \<Rightarrow> real \<Rightarrow> state
       \<Rightarrow> error + (real list \<times> real list \<times> (real \<times> real \<times> real) list)" where
  "slice_data x y z zvalue s =
     seq (lookup z) (\<lambda>zi.
       let indices = where_eq (parameter_space s ! zi) zvalue in
     seq (lookup x) (\<lambda>xi.
       let xvalues = map (\<lambda>i. (parameter_space s ! xi) ! i) indices in
     seq (lookup y) (\<lambda>yi.
       let yvalues = map (\<lambda>i. (parameter_space s ! yi) ! i) indices in
     seq (attr (rmse s)) (\<lambda>r.
     seq (take_indices r indices) (\<lambda>rmse_subset.
       Inr (xvalues, yvalues, cells xvalues yvalues rmse_subset))))))"

text \<open>
  Lines 368 to 395: the grid over the range of the x and y values (Python's \<open>min\<close> and
  \<open>max\<close> raise on an empty sequence), the interpolation and the two plots.
\<close>

definition render ::
    "real \<Rightarrow> real \<Rightarrow> plotting \<Rightarrow> real \<Rightarrow> real list \<Rightarrow> real list
       \<Rightarrow> real list \<Rightarrow> real list \<Rightarrow> real list \<Rightarrow> state \<Rightarrow> error + state" where
  "render dx dy env q xvalues yvalues xs ys rmse_subset s =
     seq (py_min xvalues) (\<lambda>x0.
     seq (py_max xvalues) (\<lambda>x1.
     seq (py_min yvalues) (\<lambda>y0.
     seq (py_max yvalues) (\<lambda>y1.
       let (xx, yy) = mgrid (arange x0 x1 dx) (arange y0 y1 dy) in
     seq (griddata env xs ys rmse_subset xx yy) (\<lambda>rmse_grid.
     seq (try_contour env q xx yy rmse_grid s) (\<lambda>s2.
       try_heatmap env xx yy rmse_grid s2))))))"

text \<open>
  \<open>uncertainty_slice\<close> with the two grid steps as arguments; the source fixes them to
  0.02 and 0.01. The result is the triple \<open>(xs, ys, rmse_subset)\<close> that the method
  returns, with the object as the call leaves it.
\<close>

definition uncertainty_slice_res ::
    "real \<Rightarrow> real \<Rightarrow> plotting \<Rightarrow> real \<Rightarrow> string \<Rightarrow> string \<Rightarrow> string \<Rightarrow> real \<Rightarrow> state
       \<Rightarrow> error + ((real list \<times> real list \<times> real list) \<times> state)" where
  "uncertainty_slice_res dx dy env q x y z zvalue s =
     seq (slice_data x y z zvalue s) (\<lambda>(xvalues, yvalues, cs).
       let xs = map fst cs;
           ys = map (fst \<circ> snd) cs;
           rmse_subset = map (snd \<circ> snd) cs;
           s1 = print (PList ''rmse_subset'' rmse_subset) s
       in
     seq (render dx dy env q xvalues yvalues xs ys rmse_subset s1) (\<lambda>s3.
       Inr ((xs, ys, rmse_subset), s3)))"

definition uncertainty_slice ::
    "plotting \<Rightarrow> real \<Rightarrow> string \<Rightarrow> string \<Rightarrow> string \<Rightarrow> real \<Rightarrow> state
       \<Rightarrow> error + ((real list \<times> real list \<times> real list) \<times> state)" where
  "uncertainty_slice = uncertainty_slice_res (2 / 100) (1 / 100)"

subsection \<open>Notions used in the statements\<close>

text \<open>
  The weighted misfit as the spec words it: the sum over the sites of the normalised
  weight times the squared residual.
\<close>

definition weighted_sum_squares :: "real list \<Rightarrow> real list \<Rightarrow> real list \<Rightarrow> real" where
  "weighted_sum_squares w mmi obs =
     (\<Sum>(wi, p, v) \<leftarrow> zip (map (\<lambda>x. x / sum_list w) w) (zip mmi obs). wi * (p - v) ^ 2)"

text \<open>
  The unweighted misfit as the spec words it: the square root of the sum over the sites
  of the squared residual, divided by the number of observations.
\<close>

definition root_mean_square :: "real list \<Rightarrow> real list \<Rightarrow> real" where
  "root_mean_square mmi obs = sqrt ((\<Sum>(p, v) \<leftarrow> zip mmi obs. (p - v) ^ 2) / real (length obs))"

text \<open>
  The attributes that lines 249 to 279 of \<open>uncertainty_model\<close> assign once the accepted
  ruptures \<open>fr\<close> are known: the fitted lists and the range of each parameter.
\<close>

definition ranges_set :: "rupture list \<Rightarrow> state \<Rightarrow> state" where
  "ranges_set fr s =
     s\<lparr>fitted_ruptures := Some fr,
       fitted_mags := Some (map mag fr), fitted_lons := Some (map longitude fr),
       fitted_lats := Some (map latitude fr), fitted_depths := Some (map depth fr),
       fitted_strikes := Some (map strike fr), fitted_dips := Some (map dip fr),
       min_mag := Some (Min (mag ` set fr)), max_mag := Some (Max (mag ` set fr)),
       min_lon := Some (Min (longitude ` set fr)), max_lon := Some (Max (longitude ` set fr)),
       min_lat := Some (Min (latitude ` set fr)), max_lat := Some (Max (latitude ` set fr)),
       min_depth := Some (Min (depth ` set fr)), max_depth := Some (Max (depth ` set fr)),
       min_strike := Some (Min (strike ` set fr)), max_strike := Some (Max (strike ` set fr)),
       min_dip := Some (Min (dip ` set fr)), max_dip := Some (Max (dip ` set fr))\<rparr>"

text \<open>The positions of the slice whose x value is \<open>a\<close> and whose y value is \<open>b\<close>.\<close>

definition match :: "real list \<Rightarrow> real list \<Rightarrow> real \<Rightarrow> real \<Rightarrow> nat set" where
  "match xv yv a b = {p. p < length xv \<and> xv ! p = a \<and> yv ! p = b}"

subsection \<open>Example data\<close>

text \<open>A rupture with the given magnitude, longitude and latitude, for concrete checks.\<close>

definition rup :: "real \<Rightarrow> real \<Rightarrow> real \<Rightarrow> rupture" where
  "rup m lo la = \<lparr>mag = m, longitude = lo, latitude = la, depth = 10, strike = 90, dip = 45\<rparr>"

text \<open>Scenario A of the spec: three candidates over three sites.\<close>

definition scenario_a :: state where
  "scenario_a = store [rup 7 110 (-8), rup 7 111 (-8), rup 8 110 (-8)] [[5, 5, 5], [6, 6, 6], [4, 4, 4]]"

text \<open>One candidate over one site.\<close>

definition one_candidate :: state where
  "one_candidate = store [rup 7 110 (-8)] [[7]]"

text \<open>Two candidates over four sites.\<close>

definition two_candidates :: state where
  "two_candidates = store [rup 7 110 (-8), rup 7 111 (-8)] [[7, 7, 7, 7], [5, 5, 5, 5]]"

text \<open>
  Seven observations, and two sets of three candidates over the seven sites: in
  \<open>scenario_b\<close> the best candidate is off by 0.2 at every site (misfit 0.2, Scenario B of
  the spec), in \<open>perfect_fit\<close> it matches the observations exactly.
\<close>

definition obs7 :: "real list" where
  "obs7 = [5, 5, 5, 5, 5, 5, 5]"

definition scenario_b :: state where
  "scenario_b = store [rup 7 110 (-8), rup 7 111 (-8), rup 8 110 (-8)]
     [[26 / 5, 26 / 5, 26 / 5, 26 / 5, 26 / 5, 26 / 5, 26 / 5],
      [6, 6, 6, 6, 6, 6, 6], [4, 4, 4, 4, 4, 4, 4]]"

definition perfect_fit :: state where
  "perfect_fit = store [rup 7 110 (-8), rup 7 111 (-8), rup 8 110 (-8)]
     [[5, 5, 5, 5, 5, 5, 5], [6, 6, 6, 6, 6, 6, 6], [4, 4, 4, 4, 4, 4, 4]]"

text \<open>
  Plotting backends: one whose calls all return (the interpolation hands back the x grid),
  one whose plots raise ValueError, and one whose heatmap raises an exception that is not
  a ValueError.
\<close>

definition plots_ok :: plotting where
  "plots_ok = \<lparr>griddata = (\<lambda>xs ys vs xx yy. Inr xx),
               contour = (\<lambda>xx yy g l1 l2. None), heatmap = (\<lambda>xx yy g vmax vmin. None)\<rparr>"

definition plots_value_error :: plotting where
  "plots_value_error = plots_ok\<lparr>contour := (\<lambda>xx yy g l1 l2. Some ValueError),
                                 heatmap := (\<lambda>xx yy g vmax vmin. Some ValueError)\<rparr>"

definition plots_other_error :: plotting where
  "plots_other_error = plots_ok\<lparr>heatmap := (\<lambda>xx yy g vmax vmin. Some OtherError)\<rparr>"

text \<open>
  Four candidates over one site after \<open>calc_rmse\<close> against the observation 5: three of
  magnitude 7, two of them at the same longitude and latitude, and one of magnitude 8.
\<close>

definition slice_store :: state where
  "slice_store =
     (store [rup 7 110 (-8), (rup 7 110 (-8))\<lparr>depth := 20\<rparr>, rup 7 111 (-8), rup 8 110 (-8)]
            [[8], [6], [7], [5]])
       \<lparr>mmi_obs := Some [5], sum_squares_list := Some [9, 1, 4, 0], rmse := Some [3, 1, 2, 0]\<rparr>"

text \<open>
  Four candidates over one site after \<open>calc_rmse\<close> against the observation 5, with
  all six parameters written out: three of magnitude 7, two of them with the same strike
  and dip (and different longitudes and depths), and one of magnitude 8.
\<close>

definition slice_fields :: state where
  "slice_fields =
     (store [\<lparr>mag = 7, longitude = 110, latitude = -8, depth = 10, strike = 90, dip = 45\<rparr>,
             \<lparr>mag = 7, longitude = 111, latitude = -8, depth = 20, strike = 90, dip = 45\<rparr>,
             \<lparr>mag = 7, longitude = 110, latitude = -7, depth = 10, strike = 180, dip = 60\<rparr>,
             \<lparr>mag = 8, longitude = 110, latitude = -8, depth = 10, strike = 90, dip = 45\<rparr>]
            [[8], [6], [7], [5]])
       \<lparr>mmi_obs := Some [5], sum_squares_list := Some [9, 1, 4, 0], rmse := Some [3, 1, 2, 0]\<rparr>"

text \<open>
  A plotting backend whose interpolation is the one that line 369 asks for
  (\<open>method='nearest'\<close>): every grid node takes the value of the data point closest to
  it, the first one on a tie; it raises ValueError without data points. Both plots return.
\<close>

definition nearest :: "real list \<Rightarrow> real list \<Rightarrow> real list \<Rightarrow> real \<Rightarrow> real \<Rightarrow> real" where
  "nearest xs ys vs gx gy =
     (case np_argmin (map (\<lambda>(x, y). (gx - x) ^ 2 + (gy - y) ^ 2) (zip xs ys)) of
        Inr k \<Rightarrow> vs ! k
      | Inl e \<Rightarrow> 0)"

definition plots_nearest :: plotting where
  "plots_nearest =
     \<lparr>griddata = (\<lambda>xs ys vs xx yy.
         if xs = [] then Inl ValueError
         else Inr (map (\<lambda>(rx, ry). map (\<lambda>(gx, gy). nearest xs ys vs gx gy) (zip rx ry)) (zip xx yy))),
      contour = (\<lambda>xx yy g l1 l2. None), heatmap = (\<lambda>xx yy g vmax vmin. None)\<rparr>"

section \<open>Properties\<close>

subsection \<open>Sequencing\<close>

lemma seq_Inr [simp]: "seq (Inr v) f = f v" by (simp add: seq_def)
lemma seq_Inl [simp]: "seq (Inl e) f = Inl e" by (simp add: seq_def)
lemma attr_Some [simp]: "attr (Some v) = Inr v" by (simp add: attr_def)
lemma attr_None [simp]: "attr None = Inl AttributeError" by (simp add: attr_def)

lemma argmin_scan_spec:
  assumes "bi < i" "bi < length pre" "length pre = i" "pre ! bi = bv"
    "\<forall>j < length pre. bv \<le> pre ! j" "\<forall>j < bi. bv < pre ! j"
  shows "let k = argmin_scan bi bv i xs in
           k < length (pre @ xs) \<and> (\<forall>j < length (pre @ xs). (pre @ xs) ! k \<le> (pre @ xs) ! j)
           \<and> (\<forall>j < k. (pre @ xs) ! k < (pre @ xs) ! j)"
  using assms
proof (induction xs arbitrary: bi bv i pre)
  case Nil
  then show ?case by (auto simp: Let_def)
next
  case (Cons x xs)
  show ?case
  proof (cases "x < bv")
    case True
    have "let k = argmin_scan i x (Suc i) xs in
           k < length ((pre @ [x]) @ xs) \<and> (\<forall>j < length ((pre @ [x]) @ xs). ((pre @ [x]) @ xs) ! k \<le> ((pre @ [x]) @ xs) ! j)
           \<and> (\<forall>j < k. ((pre @ [x]) @ xs) ! k < ((pre @ [x]) @ xs) ! j)"
    proof (rule Cons.IH)
      show "i < Suc i" by simp
      show "i < length (pre @ [x])" using Cons.prems by simp
      show "length (pre @ [x]) = Suc i" using Cons.prems by simp
      show "(pre @ [x]) ! i = x" using Cons.prems by (simp add: nth_append)
      show "\<forall>j<length (pre @ [x]). x \<le> (pre @ [x]) ! j"
        using Cons.prems True by (auto simp: nth_append less_Suc_eq)
      show "\<forall>j<i. x < (pre @ [x]) ! j"
        using Cons.prems True by (auto simp: nth_append intro: less_le_trans)
    qed
    then show ?thesis using True by simp
  next
    case False
    have "let k = argmin_scan bi bv (Suc i) xs in
           k < length ((pre @ [x]) @ xs) \<and> (\<forall>j < length ((pre @ [x]) @ xs). ((pre @ [x]) @ xs) ! k \<le> ((pre @ [x]) @ xs) ! j)
           \<and> (\<forall>j < k. ((pre @ [x]) @ xs) ! k < ((pre @ [x]) @ xs) ! j)"
    proof (rule Cons.IH)
      show "bi < Suc i" using Cons.prems by simp
      show "bi < length (pre @ [x])" using Cons.prems by simp
      show "length (pre @ [x]) = Suc i" using Cons.prems by simp
      show "(pre @ [x]) ! bi = bv" using Cons.prems by (simp add: nth_append)
      show "\<forall>j<length (pre @ [x]). bv \<le> (pre @ [x]) ! j"
        using Cons.prems False by (auto simp: nth_append less_Suc_eq)
      show "\<forall>j<bi. bv < (pre @ [x]) ! j"
        using Cons.prems by (auto simp: nth_append)
    qed
    then show ?thesis using False by simp
  qed
qed

lemma np_argmin_spec:
  assumes "xs \<noteq> []"
  shows "\<exists>k. np_argmin xs = Inr k \<and> k < length xs \<and> (\<forall>j < length xs. xs ! k \<le> xs ! j)
           \<and> (\<forall>j < k. xs ! k < xs ! j)"
proof -
  obtain x rest where xs: "xs = x # rest" using assms by (cases xs) auto
  have "let k = argmin_scan 0 x (Suc 0) rest in
           k < length ([x] @ rest) \<and> (\<forall>j < length ([x] @ rest). ([x] @ rest) ! k \<le> ([x] @ rest) ! j)
           \<and> (\<forall>j < k. ([x] @ rest) ! k < ([x] @ rest) ! j)"
    by (rule argmin_scan_spec) auto
  then show ?thesis by (simp add: xs np_argmin_def Let_def)
qed

subsection \<open>Misfit evaluator\<close>

lemma np_sub_same: "length a = length b \<Longrightarrow> np_sub a b = Inr (map (\<lambda>(x, y). x - y) (zip a b))"
  by (simp add: np_sub_def)

lemma sum_squares_loop_eq:
  "\<forall>mmi \<in> set mmis. length mmi = length obs \<Longrightarrow>
   sum_squares_loop obs mmis = Inr (map (\<lambda>mmi. \<Sum>(p, v) \<leftarrow> zip mmi obs. (p - v) ^ 2) mmis)"
proof (induction mmis)
  case Nil
  then show ?case by simp
next
  case (Cons mmi rest)
  have "(\<Sum>x\<leftarrow>zip mmi obs. (case x of (x, y) \<Rightarrow> x - y) ^ 2) = (\<Sum>(p, v)\<leftarrow>zip mmi obs. (p - v) ^ 2)"
    by (rule arg_cong [where f = sum_list]) (simp add: case_prod_beta)
  with Cons show ?case by (simp add: np_sub_same comp_def)
qed

lemma sum_list_squares_nonneg: "0 \<le> (\<Sum>(p, v) \<leftarrow> xs. (p - v) ^ 2 :: real)"
  by (rule sum_list_nonneg) auto

lemma np_sqrt_nonneg: "\<forall>x \<in> set xs. 0 \<le> x \<Longrightarrow> np_sqrt xs = Inr (map sqrt xs)"
  by (auto simp: np_sqrt_def)

lemma calc_rmse_unweighted_eq:
  assumes "sum_squares_list s = None" "obs \<noteq> []"
    and "\<forall>mmi \<in> set (mmi_list s). length mmi = length obs"
  shows "calc_rmse obs None s =
     Inr (s\<lparr>mmi_obs := Some obs,
            sum_squares_list := Some (map (\<lambda>mmi. \<Sum>(p, v) \<leftarrow> zip mmi obs. (p - v) ^ 2) (mmi_list s)),
            rmse := Some (map (\<lambda>mmi. sqrt ((\<Sum>(p, v) \<leftarrow> zip mmi obs. (p - v) ^ 2) / real (length obs)))
                          (mmi_list s))\<rparr>)"
proof -
  let ?ss = "map (\<lambda>mmi. \<Sum>(p, v) \<leftarrow> zip mmi obs. (p - v) ^ 2) (mmi_list s)"
  have loop: "sum_squares_loop obs (mmi_list s) = Inr ?ss"
    using assms(3) by (rule sum_squares_loop_eq)
  let ?ms = "map (\<lambda>mmi. (\<Sum>(p, v) \<leftarrow> zip mmi obs. (p - v) ^ 2) / real (length obs)) (mmi_list s)"
  have div: "np_div_len ?ss (length obs) = Inr ?ms"
    using assms(2) by (simp add: np_div_len_def comp_def)
  have "\<forall>x \<in> set ?ms. 0 \<le> x"
    by (auto intro!: divide_nonneg_nonneg sum_list_squares_nonneg)
  then have "np_sqrt ?ms = Inr (map sqrt ?ms)"
    by (rule np_sqrt_nonneg)
  then have sq: "np_sqrt ?ms = Inr (map (\<lambda>mmi. sqrt ((\<Sum>(p, v) \<leftarrow> zip mmi obs. (p - v) ^ 2) / real (length obs))) (mmi_list s))"
    by (simp add: comp_def)
  show ?thesis
    using assms(1) by (simp add: calc_rmse_def calc_sum_squares_mmi_def loop div sq)
qed

text \<open>
  Claim C4 (as amended). In unweighted mode, on the first misfit evaluation of an object
  (no sum-of-squares list is stored yet), with N > 0 observations and every intensity
  field of length N, \<open>calc_rmse\<close> returns and the misfit of each candidate is the square
  root of the sum over the sites of (predicted - observed) squared, divided by N.
\<close>

theorem calc_rmse_unweighted:
  assumes "sum_squares_list s = None" "obs \<noteq> []"
    and "\<forall>mmi \<in> set (mmi_list s). length mmi = length obs"
  shows "\<exists>s'. calc_rmse obs None s = Inr s' \<and> mmi_list s' = mmi_list s \<and>
     rmse s' = Some (map (\<lambda>mmi. sqrt ((\<Sum>(p, v) \<leftarrow> zip mmi obs. (p - v) ^ 2) / real (length obs)))
                        (mmi_list s))"
  using calc_rmse_unweighted_eq [OF assms] by simp

theorem calc_rmse_unweighted_witness:
  "sum_squares_list two_candidates = None \<and> [5, 5, 5, 5 :: real] \<noteq> [] \<and>
   rmse_of (calc_rmse [5, 5, 5, 5] None two_candidates) = Inr (Some [2, 0])"
proof -
  have h: "sum_squares_list two_candidates = None" "[5, 5, 5, 5 :: real] \<noteq> []"
    "\<forall>mmi \<in> set (mmi_list two_candidates). length mmi = length [5, 5, 5, 5 :: real]"
    by (simp_all add: two_candidates_def store_def)
  have r: "sqrt 4 = 2" using real_sqrt_abs [of 2] by simp
  from calc_rmse_unweighted [OF h] obtain s' where
    "calc_rmse [5, 5, 5, 5] None two_candidates = Inr s'"
    "rmse s' = Some (map (\<lambda>mmi. sqrt ((\<Sum>(p, v) \<leftarrow> zip mmi [5, 5, 5, 5]. (p - v) ^ 2)
                               / real (length [5, 5, 5, 5 :: real])))
                        (mmi_list two_candidates))"
    by blast
  then have "rmse_of (calc_rmse [5, 5, 5, 5] None two_candidates) = Inr (Some [2, 0])"
    by (simp add: rmse_of_def two_candidates_def store_def r)
  with h show ?thesis by blast
qed

subsection \<open>Best-fit selector\<close>

lemma getitem_in: "i < length xs \<Longrightarrow> getitem xs i = Inr (xs ! i)"
  by (simp add: getitem_def)

text \<open>
  Claim C5. On a non-empty misfit sequence (aligned with the rupture list)
  \<open>find_best_fit\<close> stores the rupture at the index of the minimum misfit and that
  minimum; among equal minima the index is the first one (every earlier entry is strictly
  larger). On an empty misfit sequence it fails with ValueError.
\<close>

theorem find_best_fit_min:
  "(rmse s = Some [] \<longrightarrow> find_best_fit s = Inl ValueError) \<and>
   (rmse s = Some r \<and> r \<noteq> [] \<and> length r \<le> length (rupture_list s) \<longrightarrow>
      (\<exists>k. np_argmin r = Inr k \<and> k < length r \<and> r ! k = Min (set r) \<and>
           (\<forall>j < k. r ! k < r ! j) \<and>
           find_best_fit s =
             Inr (s\<lparr>best_rupture := Some (rupture_list s ! k), min_rmse := Some (r ! k)\<rparr>)))"
proof (intro conjI impI)
  assume "rmse s = Some []"
  then show "find_best_fit s = Inl ValueError"
    by (simp add: find_best_fit_def np_argmin_def)
next
  assume a: "rmse s = Some r \<and> r \<noteq> [] \<and> length r \<le> length (rupture_list s)"
  then obtain k where k: "np_argmin r = Inr k" "k < length r" "\<forall>j < length r. r ! k \<le> r ! j"
      "\<forall>j < k. r ! k < r ! j"
    using np_argmin_spec [of r] by blast
  have "r ! k = Min (set r)"
  proof (rule sym, rule Min_eqI)
    show "finite (set r)" by simp
    show "r ! k \<in> set r" using k(2) by simp
    fix y assume "y \<in> set r"
    then show "r ! k \<le> y" using k(3) by (auto simp: in_set_conv_nth)
  qed
  moreover have "find_best_fit s =
      Inr (s\<lparr>best_rupture := Some (rupture_list s ! k), min_rmse := Some (r ! k)\<rparr>)"
    using a k(1,2) by (simp add: find_best_fit_def getitem_in)
  ultimately show "\<exists>k. np_argmin r = Inr k \<and> k < length r \<and> r ! k = Min (set r) \<and>
           (\<forall>j < k. r ! k < r ! j) \<and>
           find_best_fit s =
             Inr (s\<lparr>best_rupture := Some (rupture_list s ! k), min_rmse := Some (r ! k)\<rparr>)"
    using k by blast
qed

theorem find_best_fit_min_witness:
  "(rmse (scenario_a\<lparr>rmse := Some []\<rparr>) = Some [] \<and>
      find_best_fit (scenario_a\<lparr>rmse := Some []\<rparr>) = Inl ValueError) \<and>
   (rmse (scenario_a\<lparr>rmse := Some [1, 0, 0]\<rparr>) = Some [1, 0, 0] \<and> [1, 0, 0 :: real] \<noteq> [] \<and>
      length [1, 0, 0 :: real] \<le> length (rupture_list (scenario_a\<lparr>rmse := Some [1, 0, 0]\<rparr>)) \<and>
      np_argmin [1, 0, 0] = Inr 1 \<and>
      find_best_fit (scenario_a\<lparr>rmse := Some [1, 0, 0]\<rparr>) =
        Inr (scenario_a\<lparr>rmse := Some [1, 0, 0], best_rupture := Some (rup 7 111 (-8)),
                         min_rmse := Some 0\<rparr>))"
proof -
  have e: "np_argmin [1, 0, 0] = Inr 1" by (simp add: np_argmin_def)
  show ?thesis
    using find_best_fit_min [of "scenario_a\<lparr>rmse := Some []\<rparr>" "[]"]
      find_best_fit_min [of "scenario_a\<lparr>rmse := Some [1, 0, 0]\<rparr>" "[1, 0, 0]"]
    by (simp add: e scenario_a_def store_def)
qed

subsection \<open>Weighted misfit\<close>

lemma np_dot_same: "length a = length b \<Longrightarrow> np_dot a b = Inr (\<Sum>(x, y) \<leftarrow> zip a b. x * y)"
  by (simp add: np_dot_def)

lemma weighted_term:
  "length w = length obs \<Longrightarrow> length mmi = length obs \<Longrightarrow>
   (\<Sum>(x, y) \<leftarrow> zip w (map (\<lambda>x. x ^ 2) (map (\<lambda>(x, y). x - y) (zip mmi obs))). x * y)
     = (\<Sum>(wi, p, v) \<leftarrow> zip w (zip mmi obs). wi * (p - v) ^ 2 :: real)"
proof (induction w arbitrary: mmi obs)
  case Nil
  then show ?case by simp
next
  case (Cons a w)
  then obtain v obs' where o: "obs = v # obs'" by (cases obs) auto
  with Cons.prems obtain p mmi' where m: "mmi = p # mmi'" by (cases mmi) auto
  show ?case using Cons.IH [of obs' mmi'] Cons.prems by (simp add: o m)
qed

lemma weighted_loop_normalised:
  assumes "sum_list w = 1" "length w = length obs"
    and "\<forall>mmi \<in> set mmis. length mmi = length obs"
  shows "weighted_loop obs w mmis =
     Inr (map (\<lambda>mmi. \<Sum>(wi, p, v) \<leftarrow> zip w (zip mmi obs). wi * (p - v) ^ 2) mmis)"
  using assms(3)
proof (induction mmis)
  case Nil
  then show ?case by simp
next
  case (Cons mmi rest)
  have ne: "w \<noteq> []" using assms(1) by auto
  have w': "map (\<lambda>x. x * (1 / sum_list w)) w = w" using assms(1) by simp
  have len: "length mmi = length obs" using Cons.prems by simp
  have dot: "np_dot w (map (\<lambda>x. x ^ 2) (map (\<lambda>(x, y). x - y) (zip mmi obs)))
      = Inr (\<Sum>(wi, p, v) \<leftarrow> zip w (zip mmi obs). wi * (p - v) ^ 2)"
  proof -
    have "length w = length (map (\<lambda>x. x ^ 2) (map (\<lambda>(x, y). x - y) (zip mmi obs)))"
      using assms(2) len by simp
    then show ?thesis
      by (simp only: np_dot_same weighted_term [OF assms(2) len])
  qed
  have rest: "weighted_loop obs w rest =
     Inr (map (\<lambda>mmi. \<Sum>(wi, p, v) \<leftarrow> zip w (zip mmi obs). wi * (p - v) ^ 2) rest)"
    using Cons by simp
  show ?case
    using ne assms(1) by (simp add: w' np_sub_same [OF len] dot rest Let_def del: map_map)
qed

lemma sum_list_scale: "sum_list (map (\<lambda>x. x * c) w) = sum_list w * (c :: real)"
  by (induction w) (simp_all add: algebra_simps)

lemma weighted_loop_eq:
  assumes "sum_list w \<noteq> 0" "length w = length obs"
    and "\<forall>mmi \<in> set mmis. length mmi = length obs"
  shows "weighted_loop obs w mmis =
     Inr (map (\<lambda>mmi. \<Sum>(wi, p, v) \<leftarrow> zip (map (\<lambda>x. x / sum_list w) w) (zip mmi obs). wi * (p - v) ^ 2) mmis)"
proof (cases mmis)
  case Nil
  then show ?thesis by simp
next
  case (Cons mmi rest)
  let ?w = "map (\<lambda>x. x / sum_list w) w"
  have ne: "w \<noteq> []" using assms(1) by auto
  have w': "map (\<lambda>x. x * (1 / sum_list w)) w = ?w" by simp
  have s1: "sum_list ?w = 1" using assms(1) sum_list_scale [of "1 / sum_list w" w] by simp
  have lw: "length ?w = length obs" using assms(2) by simp
  have len: "length mmi = length obs" using assms(3) Cons by simp
  have dot: "np_dot ?w (map (\<lambda>x. x ^ 2) (map (\<lambda>(x, y). x - y) (zip mmi obs)))
      = Inr (\<Sum>(wi, p, v) \<leftarrow> zip ?w (zip mmi obs). wi * (p - v) ^ 2)"
  proof -
    have "length ?w = length (map (\<lambda>x. x ^ 2) (map (\<lambda>(x, y). x - y) (zip mmi obs)))"
      using lw len by simp
    then show ?thesis
      by (simp only: np_dot_same weighted_term [OF lw len])
  qed
  have rest: "weighted_loop obs ?w rest =
     Inr (map (\<lambda>mmi. \<Sum>(wi, p, v) \<leftarrow> zip ?w (zip mmi obs). wi * (p - v) ^ 2) rest)"
    by (rule weighted_loop_normalised [OF s1 lw]) (use assms(3) Cons in simp)
  show ?thesis
    using ne assms(1) by (simp add: Cons w' np_sub_same [OF len] dot rest Let_def del: map_map)
qed

lemma calc_rmse_weighted_eq:
  assumes "sum_squares_list s = None" "sum_list w \<noteq> 0" "length w = length obs"
    and "\<forall>mmi \<in> set (mmi_list s). length mmi = length obs"
    and "\<forall>mmi \<in> set (mmi_list s). 0 \<le> weighted_sum_squares w mmi obs"
  shows "calc_rmse obs (Some w) s =
     Inr (s\<lparr>mmi_obs := Some obs,
            sum_squares_list := Some (map (\<lambda>mmi. weighted_sum_squares w mmi obs) (mmi_list s)),
            rmse := Some (map (\<lambda>mmi. sqrt (weighted_sum_squares w mmi obs)) (mmi_list s))\<rparr>)"
proof -
  let ?ss = "map (\<lambda>mmi. weighted_sum_squares w mmi obs) (mmi_list s)"
  have loop: "weighted_loop obs w (mmi_list s) = Inr ?ss"
    unfolding weighted_sum_squares_def using assms(2,3,4) by (rule weighted_loop_eq)
  have "\<forall>x \<in> set ?ss. 0 \<le> x" using assms(5) by auto
  then have "np_sqrt ?ss = Inr (map sqrt ?ss)" by (rule np_sqrt_nonneg)
  then have sq: "np_sqrt ?ss = Inr (map (\<lambda>mmi. sqrt (weighted_sum_squares w mmi obs)) (mmi_list s))"
    by (simp add: comp_def)
  show ?thesis
    using assms(1) by (simp add: calc_rmse_def calc_sum_squares_mmi_weighted_def loop sq)
qed

lemma sum_zip_replicate:
  "length xs = n \<Longrightarrow>
   (\<Sum>(wi, p, v) \<leftarrow> zip (replicate n a) xs. wi * (p - v) ^ 2) = a * (\<Sum>(p, v) \<leftarrow> xs. (p - v) ^ 2 :: real)"
proof (induction xs arbitrary: n)
  case Nil
  then show ?case by simp
next
  case (Cons x xs)
  then obtain m where "n = Suc m" by (cases n) auto
  with Cons show ?case by (cases x) (simp add: algebra_simps)
qed

lemma weighted_uniform:
  assumes "c \<noteq> 0" "obs \<noteq> []" "length mmi = length obs"
  shows "weighted_sum_squares (replicate (length obs) c) mmi obs =
     (\<Sum>(p, v) \<leftarrow> zip mmi obs. (p - v) ^ 2) / real (length obs)"
proof -
  have n: "real (length obs) \<noteq> 0" using assms(2) by simp
  have sl: "sum_list (replicate (length obs) c) = real (length obs) * c"
    by (simp add: sum_list_replicate)
  have q: "c / (real (length obs) * c) = 1 / real (length obs)"
    using assms(1) n by (simp add: field_simps)
  have m: "map (\<lambda>x. x / sum_list (replicate (length obs) c)) (replicate (length obs) c)
      = replicate (length obs) (1 / real (length obs))"
    by (simp only: sl map_replicate q)
  have "weighted_sum_squares (replicate (length obs) c) mmi obs =
      (\<Sum>(wi, p, v) \<leftarrow> zip (replicate (length obs) (1 / real (length obs))) (zip mmi obs). wi * (p - v) ^ 2)"
    by (simp only: weighted_sum_squares_def m)
  also have "\<dots> = (1 / real (length obs)) * (\<Sum>(p, v) \<leftarrow> zip mmi obs. (p - v) ^ 2)"
    by (rule sum_zip_replicate) (use assms(3) in simp)
  finally show ?thesis by simp
qed

text \<open>
  Claim C2 (as amended). In weighted mode, on an object whose misfits have not been
  computed yet, with weights of non-zero sum and of the length N of the observations
  and of every intensity field, and with no negative weighted sum, \<open>calc_rmse\<close>
  returns; the stored sum of squares of each candidate is the sum over the sites of the
  normalised weight times (predicted - observed) squared, and the misfit is the square
  root of that sum. With all weights equal the weighted misfit is the unweighted misfit
  itself (the root-mean-square error).
\<close>

theorem calc_rmse_weighted:
  assumes "sum_squares_list s = None" "sum_list w \<noteq> 0" "length w = length obs"
    and "\<forall>mmi \<in> set (mmi_list s). length mmi = length obs"
    and "\<forall>mmi \<in> set (mmi_list s). 0 \<le> weighted_sum_squares w mmi obs"
  shows "\<exists>s'. calc_rmse obs (Some w) s = Inr s' \<and>
     sum_squares_list s' = Some (map (\<lambda>mmi. weighted_sum_squares w mmi obs) (mmi_list s)) \<and>
     rmse s' = Some (map (\<lambda>mmi. sqrt (weighted_sum_squares w mmi obs)) (mmi_list s)) \<and>
     ((\<exists>c. w = replicate (length obs) c) \<longrightarrow> rmse_of (calc_rmse obs None s) = Inr (rmse s'))"
proof -
  let ?s' = "s\<lparr>mmi_obs := Some obs,
            sum_squares_list := Some (map (\<lambda>mmi. weighted_sum_squares w mmi obs) (mmi_list s)),
            rmse := Some (map (\<lambda>mmi. sqrt (weighted_sum_squares w mmi obs)) (mmi_list s))\<rparr>"
  have eq: "calc_rmse obs (Some w) s = Inr ?s'" using assms by (rule calc_rmse_weighted_eq)
  have ne: "obs \<noteq> []" using assms(2,3) by auto
  have "rmse_of (calc_rmse obs None s) = Inr (rmse ?s')" if "w = replicate (length obs) c" for c
  proof -
    have c: "c \<noteq> 0" using assms(2) that by (auto simp: sum_list_replicate)
    have "map (\<lambda>mmi. sqrt (weighted_sum_squares w mmi obs)) (mmi_list s)
        = map (\<lambda>mmi. sqrt ((\<Sum>(p, v) \<leftarrow> zip mmi obs. (p - v) ^ 2) / real (length obs))) (mmi_list s)"
      using assms(4) by (simp add: that weighted_uniform [OF c ne])
    then show ?thesis
      by (simp add: calc_rmse_unweighted_eq [OF assms(1) ne assms(4)] rmse_of_def)
  qed
  with eq show ?thesis by auto
qed

theorem calc_rmse_weighted_witness:
  "sum_list [2, 2, 2 :: real] \<noteq> 0 \<and>
   rmse_of (calc_rmse [5, 5, 5] (Some [2, 2, 2]) scenario_a) = Inr (Some [0, 1, 1]) \<and>
   rmse_of (calc_rmse [5, 5, 5] None scenario_a) = Inr (Some [0, 1, 1])"
proof -
  have h: "sum_squares_list scenario_a = None" "sum_list [2, 2, 2 :: real] \<noteq> 0"
    "length [2, 2, 2 :: real] = length [5, 5, 5 :: real]"
    "\<forall>mmi \<in> set (mmi_list scenario_a). length mmi = length [5, 5, 5 :: real]"
    "\<forall>mmi \<in> set (mmi_list scenario_a). 0 \<le> weighted_sum_squares [2, 2, 2] mmi [5, 5, 5]"
    by (simp_all add: scenario_a_def store_def weighted_sum_squares_def)
  have r: "[2, 2, 2 :: real] = replicate (length [5, 5, 5 :: real]) 2" by (simp add: numeral_3_eq_3)
  from calc_rmse_weighted [OF h] obtain s' where s':
    "calc_rmse [5, 5, 5] (Some [2, 2, 2]) scenario_a = Inr s'"
    "rmse s' = Some (map (\<lambda>mmi. sqrt (weighted_sum_squares [2, 2, 2] mmi [5, 5, 5])) (mmi_list scenario_a))"
    "(\<exists>c. [2, 2, 2 :: real] = replicate (length [5, 5, 5 :: real]) c) \<longrightarrow>
       rmse_of (calc_rmse [5, 5, 5] None scenario_a) = Inr (rmse s')"
    by blast
  have v: "rmse s' = Some [0, 1, 1]"
    using s'(2) by (simp add: scenario_a_def store_def weighted_sum_squares_def)
  have "rmse_of (calc_rmse [5, 5, 5] None scenario_a) = Inr (rmse s')"
    using s'(3) r by blast
  with s'(1) v h(2) show ?thesis by (simp add: rmse_of_def)
qed

text \<open>
  Claim C2 as stated fails: for one site, field 7, observation 5 and weight 1 the
  weighted sum of squares is 4 but the weighted misfit is its square root 2, which is
  the unweighted misfit and not its square.
\<close>

theorem weighted_misfit_counterexample:
  "rmse_of (calc_rmse [5] (Some [1]) one_candidate) = Inr (Some [2]) \<and>
   weighted_sum_squares [1] [7] [5] = 4 \<and>
   rmse_of (calc_rmse [5] None one_candidate) = Inr (Some [2])"
proof -
  have a: "weighted_sum_squares [1] [7] [5] = 4" by (simp add: weighted_sum_squares_def)
  have h: "sum_squares_list one_candidate = None" "sum_list [1 :: real] \<noteq> 0"
    "length [1 :: real] = length [5 :: real]"
    "\<forall>mmi \<in> set (mmi_list one_candidate). length mmi = length [5 :: real]"
    "\<forall>mmi \<in> set (mmi_list one_candidate). 0 \<le> weighted_sum_squares [1] mmi [5]"
    by (simp_all add: one_candidate_def store_def a)
  have "sqrt 4 = 2" using real_sqrt_abs [of 2] by simp
  then have b: "rmse_of (calc_rmse [5] (Some [1]) one_candidate) = Inr (Some [2])"
    by (simp add: calc_rmse_weighted_eq [OF h] rmse_of_def a) (simp add: one_candidate_def store_def a)
  have h2: "[5 :: real] \<noteq> []" by simp
  have c: "rmse_of (calc_rmse [5] None one_candidate) = Inr (Some [2])"
    using \<open>sqrt 4 = 2\<close>
    by (simp add: calc_rmse_unweighted_eq [OF h(1) h2 h(4)] rmse_of_def) (simp add: one_candidate_def store_def)
  from a b c show ?thesis by simp
qed

subsection \<open>Caching of the misfits\<close>

lemma seq_Inr_iff: "seq r f = Inr v \<longleftrightarrow> (\<exists>a. r = Inr a \<and> f a = Inr v)"
  by (cases r) (simp_all add: seq_def)

lemma calc_rmse_sets_sum_squares:
  assumes "calc_rmse obs w s = Inr s1"
  shows "sum_squares_list s1 \<noteq> None"
proof (cases "sum_squares_list s")
  case (Some ss)
  with assms show ?thesis by (auto simp: calc_rmse_def)
next
  case None
  show ?thesis
  proof (cases w)
    case None': None
    with assms None show ?thesis
      by (auto simp: calc_rmse_def calc_sum_squares_mmi_def seq_Inr_iff attr_def split: option.splits)
  next
    case (Some ws)
    with assms None show ?thesis
      by (auto simp: calc_rmse_def calc_sum_squares_mmi_weighted_def seq_Inr_iff attr_def split: option.splits)
  qed
qed

lemma calc_rmse_keeps:
  "sum_squares_list s \<noteq> None \<Longrightarrow> calc_rmse obs w s = Inr (s\<lparr>mmi_obs := Some obs\<rparr>)"
  by (auto simp: calc_rmse_def)

text \<open>
  Claim C9 (as amended). The misfits are computed by the first successful call of
  \<open>calc_rmse\<close> only: every later call, whatever its observations and weights, stores
  the new observations and returns with the misfit sequence of the first call.
\<close>

theorem calc_rmse_cached:
  assumes "calc_rmse obs1 w1 s = Inr s1"
  shows "calc_rmse obs2 w2 s1 = Inr (s1\<lparr>mmi_obs := Some obs2\<rparr>) \<and>
         rmse_of (calc_rmse obs2 w2 s1) = Inr (rmse s1)"
  using calc_rmse_keeps [OF calc_rmse_sets_sum_squares [OF assms]] by (simp add: rmse_of_def)

lemma one_candidate_first:
  "calc_rmse [5] None one_candidate =
     Inr (one_candidate\<lparr>mmi_obs := Some [5], sum_squares_list := Some [4], rmse := Some [2]\<rparr>)"
proof -
  have h: "sum_squares_list one_candidate = None" "[5 :: real] \<noteq> []"
    "\<forall>mmi \<in> set (mmi_list one_candidate). length mmi = length [5 :: real]"
    by (simp_all add: one_candidate_def store_def)
  have "sqrt 4 = 2" using real_sqrt_abs [of 2] by simp
  then show ?thesis
    by (simp add: calc_rmse_unweighted_eq [OF h]) (simp add: one_candidate_def store_def)
qed

theorem calc_rmse_cached_witness:
  "rmse_of (seq (calc_rmse [5] None one_candidate) (calc_rmse [7] (Some [1]))) = Inr (Some [2])"
  using calc_rmse_cached [OF one_candidate_first, of "[7]" "Some [1]"]
  by (simp add: one_candidate_first rmse_of_def)

text \<open>
  Claim C9 as stated fails: after a call with observation 5 on the field 7 (misfit 2), a
  second call with observation 7 leaves the misfit at 2, while the same call on a fresh
  object gives 0.
\<close>

theorem recomputed_counterexample:
  "rmse_of (seq (calc_rmse [5] None one_candidate) (calc_rmse [7] None)) = Inr (Some [2]) \<and>
   rmse_of (calc_rmse [7] None one_candidate) = Inr (Some [0])"
proof -
  have a: "rmse_of (seq (calc_rmse [5] None one_candidate) (calc_rmse [7] None)) = Inr (Some [2])"
    by (simp add: one_candidate_first calc_rmse_keeps rmse_of_def)
  have h: "sum_squares_list one_candidate = None" "[7 :: real] \<noteq> []"
    "\<forall>mmi \<in> set (mmi_list one_candidate). length mmi = length [7 :: real]"
    by (simp_all add: one_candidate_def store_def)
  have b: "rmse_of (calc_rmse [7] None one_candidate) = Inr (Some [0])"
    by (simp add: calc_rmse_unweighted_eq [OF h] rmse_of_def) (simp add: one_candidate_def store_def)
  from a b show ?thesis by simp
qed

lemma two_candidates_first:
  "calc_rmse [5, 5, 5, 5] None two_candidates =
     Inr (two_candidates\<lparr>mmi_obs := Some [5, 5, 5, 5], sum_squares_list := Some [16, 0],
                          rmse := Some [2, 0]\<rparr>)"
proof -
  have h: "sum_squares_list two_candidates = None" "[5, 5, 5, 5 :: real] \<noteq> []"
    "\<forall>mmi \<in> set (mmi_list two_candidates). length mmi = length [5, 5, 5, 5 :: real]"
    by (simp_all add: two_candidates_def store_def)
  have "sqrt 4 = 2" using real_sqrt_abs [of 2] by simp
  then show ?thesis
    by (simp add: calc_rmse_unweighted_eq [OF h]) (simp add: two_candidates_def store_def)
qed

text \<open>
  Claim C4 as stated fails on any call but the first: after a call with the observations
  [5, 5, 5, 5] on the fields [7, 7, 7, 7] and [5, 5, 5, 5] (misfits 2 and 0), a second
  unweighted call with the observations [7, 7, 7, 7], of the same length as both fields,
  leaves the misfits at 2 and 0, while the root-mean-square errors of the two fields
  against these observations are 0 and 2.
\<close>

theorem unweighted_later_call_counterexample:
  "rmse_of (seq (calc_rmse [5, 5, 5, 5] None two_candidates) (calc_rmse [7, 7, 7, 7] None))
     = Inr (Some [2, 0]) \<and>
   root_mean_square [7, 7, 7, 7] [7, 7, 7, 7] = 0 \<and>
   root_mean_square [5, 5, 5, 5] [7, 7, 7, 7] = 2"
proof -
  have r: "sqrt 4 = 2" using real_sqrt_abs [of 2] by simp
  have a: "rmse_of (seq (calc_rmse [5, 5, 5, 5] None two_candidates) (calc_rmse [7, 7, 7, 7] None))
     = Inr (Some [2, 0])"
    by (simp add: two_candidates_first calc_rmse_keeps rmse_of_def)
  have b: "root_mean_square [7, 7, 7, 7] [7, 7, 7, 7] = 0"
    by (simp add: root_mean_square_def)
  have c: "root_mean_square [5, 5, 5, 5] [7, 7, 7, 7] = 2"
    by (simp add: root_mean_square_def r)
  from a b c show ?thesis by simp
qed

subsection \<open>Uncertainty estimator\<close>

lemma pick_map: "\<forall>i \<in> set is. i < length xs \<Longrightarrow> pick xs is = Inr (map (\<lambda>i. xs ! i) is)"
  by (induction "is") (simp_all add: getitem_in)

lemma py_min_ne: "py_min xs = Inr (Min (set xs))" if "xs \<noteq> []"
proof (cases xs)
  case Nil
  with that show ?thesis by simp
next
  case (Cons a list)
  then show ?thesis using Min.set_eq_fold [of a list] by (simp add: py_min_def)
qed

lemma py_max_ne: "py_max xs = Inr (Max (set xs))" if "xs \<noteq> []"
proof (cases xs)
  case Nil
  with that show ?thesis by simp
next
  case (Cons a list)
  then show ?thesis using Max.set_eq_fold [of a list] by (simp add: py_max_def)
qed

lemma py_min_empty: "py_min [] = Inl ValueError" by (simp add: py_min_def)

lemma py_max_empty: "py_max [] = Inl ValueError" by (simp add: py_max_def)

lemma select_indices_small:
  assumes "mmi_obs s = Some obs" "length obs \<le> 6" "rmse s = Some r"
  shows "select_indices z s = Inr (print not_enough s, filter (\<lambda>i. r ! i < 10 ^ 24) [0..<length r])"
  using assms by (simp add: select_indices_def where_less_def print_def)

lemma select_indices_large:
  assumes "mmi_obs s = Some obs" "6 < length obs" "rmse s = Some r" "r \<noteq> []"
  shows "select_indices z s =
     Inr (print (pnum (ppf z \<lparr>loc = Min (set r), scale = (Min (set r)) ^ 2 / (real (length obs) - 6)\<rparr>))
            ((print (PNum ((Min (set r)) ^ 2 / (real (length obs) - 6)))
               (s\<lparr>sigma := Some ((Min (set r)) ^ 2 / (real (length obs) - 6))\<rparr>))
             \<lparr>uncert_fun := Some \<lparr>loc = Min (set r), scale = (Min (set r)) ^ 2 / (real (length obs) - 6)\<rparr>\<rparr>),
          where_less r (ppf z \<lparr>loc = Min (set r), scale = (Min (set r)) ^ 2 / (real (length obs) - 6)\<rparr>))"
  using assms by (simp add: select_indices_def py_min_ne Let_def)

lemma select_indices_rmse:
  "select_indices z s = Inr (s1, indices) \<Longrightarrow> rmse s1 = rmse s \<and> rupture_list s1 = rupture_list s"
  by (auto simp: select_indices_def seq_Inr_iff attr_def print_def Let_def split: option.splits if_splits)

lemma uncertainty_model_ok:
  assumes sel: "select_indices z s = Inr (s1, indices)"
    and r: "rmse s = Some r" "r \<noteq> []"
    and ne: "indices \<noteq> []"
    and inr: "\<forall>i \<in> set indices. i < length (rupture_list s)"
  shows "uncertainty_model z s =
     Inr (print (PList ''dips'' (np_unique (map dip (map (\<lambda>i. rupture_list s ! i) indices))))
         (print (PList ''strikes'' (np_unique (map strike (map (\<lambda>i. rupture_list s ! i) indices))))
           (ranges_set (map (\<lambda>i. rupture_list s ! i) indices)
              (print (PList ''max rmse'' [Max (set r)]) s1))))"
proof -
  let ?fr = "map (\<lambda>i. rupture_list s ! i) indices"
  have s1: "rmse s1 = Some r" "rupture_list s1 = rupture_list s"
    using select_indices_rmse [OF sel] r by simp_all
  have p: "pick (rupture_list s) indices = Inr ?fr"
    using inr by (simp add: pick_map)
  have fr: "?fr \<noteq> []" using ne by simp
  have m: "\<And>f. py_min (map f ?fr) = Inr (Min (f ` set ?fr))" "\<And>f. py_max (map f ?fr) = Inr (Max (f ` set ?fr))"
    using fr by (simp_all add: py_min_ne py_max_ne del: map_map)
  show ?thesis
    unfolding uncertainty_model_def sel
    by (simp add: s1 py_max_ne r p m ranges_set_def print_def Let_def del: map_map)
qed

lemma uncertainty_model_no_index:
  assumes sel: "select_indices z s = Inr (s1, [])"
  shows "uncertainty_model z s = Inl ValueError"
proof -
  obtain r where r: "rmse s1 = Some r"
    using sel by (auto simp: select_indices_def seq_Inr_iff attr_def print_def Let_def split: option.splits if_splits)
  show ?thesis
  proof (cases "r = []")
    case True
    then show ?thesis unfolding uncertainty_model_def sel by (simp add: r py_max_empty)
  next
    case False
    then show ?thesis unfolding uncertainty_model_def sel
      by (simp add: r py_max_ne py_min_empty Let_def)
  qed
qed

lemma sqrt_25: "sqrt (1 / 25) = 1 / 5"
  using real_sqrt_abs [of "1 / 5"] by (simp add: power2_eq_square)

lemma scenario_a_rmse:
  "calc_rmse [5, 5, 5] None scenario_a =
     Inr (scenario_a\<lparr>mmi_obs := Some [5, 5, 5], sum_squares_list := Some [0, 3, 3],
                      rmse := Some [0, 1, 1]\<rparr>)"
proof -
  have h: "sum_squares_list scenario_a = None" "[5, 5, 5 :: real] \<noteq> []"
    "\<forall>mmi \<in> set (mmi_list scenario_a). length mmi = length [5, 5, 5 :: real]"
    by (simp_all add: scenario_a_def store_def)
  show ?thesis
    by (simp add: calc_rmse_unweighted_eq [OF h]) (simp add: scenario_a_def store_def)
qed

lemma scenario_b_rmse:
  "calc_rmse obs7 None scenario_b =
     Inr (scenario_b\<lparr>mmi_obs := Some obs7, sum_squares_list := Some [7 / 25, 7, 7],
                      rmse := Some [1 / 5, 1, 1]\<rparr>)"
proof -
  have h: "sum_squares_list scenario_b = None" "obs7 \<noteq> []"
    "\<forall>mmi \<in> set (mmi_list scenario_b). length mmi = length obs7"
    by (simp_all add: scenario_b_def store_def obs7_def)
  show ?thesis
    by (simp add: calc_rmse_unweighted_eq [OF h]) (simp add: scenario_b_def store_def obs7_def power2_eq_square sqrt_25)
qed

lemma perfect_fit_rmse:
  "calc_rmse obs7 None perfect_fit =
     Inr (perfect_fit\<lparr>mmi_obs := Some obs7, sum_squares_list := Some [0, 7, 7],
                      rmse := Some [0, 1, 1]\<rparr>)"
proof -
  have h: "sum_squares_list perfect_fit = None" "obs7 \<noteq> []"
    "\<forall>mmi \<in> set (mmi_list perfect_fit). length mmi = length obs7"
    by (simp_all add: perfect_fit_def store_def obs7_def)
  show ?thesis
    by (simp add: calc_rmse_unweighted_eq [OF h]) (simp add: perfect_fit_def store_def obs7_def)
qed

text \<open>
  Claim C1, evaluated on the code. With seven observations (one degree of freedom) and
  best misfit 0.2 the code sets \<open>self.sigma\<close> to 0.2 squared over 1, that is 0.04, and uses
  it unrooted as the scale of the normal distribution: \<open>norm(0.2, 0.04)\<close>, not the
  standard deviation 0.2 of the claim. This holds for every value \<open>z\<close> of the standard
  normal quantile.
\<close>

theorem sigma_not_rooted:
  "map_sum id (\<lambda>(s, indices). (sigma s, uncert_fun s))
     (seq (calc_rmse obs7 None scenario_b) (select_indices z))
   = Inr (Some (1 / 25), Some \<lparr>loc = 1 / 5, scale = 1 / 25\<rparr>)"
proof -
  let ?s = "scenario_b\<lparr>mmi_obs := Some obs7, sum_squares_list := Some [7 / 25, 7, 7],
                      rmse := Some [1 / 5, 1, 1]\<rparr>"
  have h: "mmi_obs ?s = Some obs7" "6 < length obs7" "rmse ?s = Some [1 / 5, 1, 1]" "[1 / 5, 1, 1 :: real] \<noteq> []"
    by (simp_all add: obs7_def)
  show ?thesis
    by (simp add: scenario_b_rmse select_indices_large [OF h] print_def)
       (simp add: obs7_def power2_eq_square)
qed

text \<open>
  Claim C3, evaluated on the code. With seven observations and a candidate that fits
  them exactly (misfit 0) the best fit is index 0 with value 0, but \<open>self.sigma\<close> is 0,
  \<open>ppf\<close> of a normal distribution of scale 0 is nan, no misfit is below nan: the accepted
  set is empty and \<open>uncertainty_model\<close> fails with ValueError at \<open>min(self.fitted_mags)\<close>.
\<close>

theorem perfect_fit_rejected:
  "seq (calc_rmse obs7 None perfect_fit) (\<lambda>s. seq (find_best_fit s) (uncertainty_model z)) = Inl ValueError \<and>
   map_sum id (\<lambda>s. (best_rupture s, min_rmse s)) (seq (calc_rmse obs7 None perfect_fit) find_best_fit)
     = Inr (Some (rup 7 110 (-8)), Some 0) \<and>
   map_sum id snd (seq (calc_rmse obs7 None perfect_fit) (\<lambda>s. seq (find_best_fit s) (select_indices z))) = Inr []"
proof -
  let ?s = "perfect_fit\<lparr>mmi_obs := Some obs7, sum_squares_list := Some [0, 7, 7],
                      rmse := Some [0, 1, 1]\<rparr>"
  let ?s2 = "?s\<lparr>best_rupture := Some (rup 7 110 (-8)), min_rmse := Some 0\<rparr>"
  have f: "find_best_fit ?s = Inr ?s2"
    by (simp add: find_best_fit_def np_argmin_def getitem_def perfect_fit_def store_def)
  have h: "mmi_obs ?s2 = Some obs7" "6 < length obs7" "rmse ?s2 = Some [0, 1, 1]" "[0, 1, 1 :: real] \<noteq> []"
    by (simp_all add: obs7_def)
  have sel: "select_indices z ?s2 =
      Inr (print (pnum None) ((print (PNum 0) (?s2\<lparr>sigma := Some 0\<rparr>))\<lparr>uncert_fun := Some \<lparr>loc = 0, scale = 0\<rparr>\<rparr>), [])"
    by (simp add: select_indices_large [OF h] ppf_def where_less_def)
  show ?thesis
    by (simp add: perfect_fit_rmse f uncertainty_model_no_index [OF sel] sel)
qed

text \<open>
  Claim C6. With at most six observations the branch of \<open>uncertainty_model\<close> on the
  number of observations never fails: it prints the diagnostic and accepts exactly the
  indices whose misfit is below the sentinel 1e24, without setting \<open>sigma\<close> or the
  distribution. When at least one candidate is below the sentinel (and the rupture list
  covers the misfit sequence) the whole method returns, with the ruptures at these indices
  as the fitted ruptures. The witness is Scenario A of the spec: fields [5,5,5], [6,6,6],
  [4,4,4] against observations [5,5,5] give the misfits [0, 1, 1], the best fit at index 0
  with value 0, and all three candidates accepted.
\<close>

theorem insufficient_data:
  assumes "mmi_obs s = Some obs" "length obs \<le> 6" "rmse s = Some r"
  shows "select_indices z s = Inr (print not_enough s, filter (\<lambda>i. r ! i < 10 ^ 24) [0..<length r]) \<and>
    ((\<exists>i < length r. r ! i < 10 ^ 24) \<and> length r \<le> length (rupture_list s) \<longrightarrow>
       (\<exists>s'. uncertainty_model z s = Inr s' \<and>
          fitted_ruptures s' =
            Some (map (\<lambda>i. rupture_list s ! i) (filter (\<lambda>i. r ! i < 10 ^ 24) [0..<length r])) \<and>
          not_enough \<in> set (stdout s') \<and> sigma s' = sigma s \<and> uncert_fun s' = uncert_fun s))"
proof (intro conjI impI)
  let ?is = "filter (\<lambda>i. r ! i < 10 ^ 24) [0..<length r]"
  show sel: "select_indices z s = Inr (print not_enough s, ?is)"
    using assms by (rule select_indices_small)
  assume a: "(\<exists>i < length r. r ! i < 10 ^ 24) \<and> length r \<le> length (rupture_list s)"
  then have ne: "?is \<noteq> []" by (auto simp: filter_empty_conv)
  have r: "r \<noteq> []" using a by auto
  have inr: "\<forall>i \<in> set ?is. i < length (rupture_list s)" using a by auto
  note ok = uncertainty_model_ok [OF sel assms(3) r ne inr]
  show "\<exists>s'. uncertainty_model z s = Inr s' \<and>
          fitted_ruptures s' = Some (map (\<lambda>i. rupture_list s ! i) ?is) \<and>
          not_enough \<in> set (stdout s') \<and> sigma s' = sigma s \<and> uncert_fun s' = uncert_fun s"
    unfolding ok by (simp add: print_def ranges_set_def)
qed

theorem insufficient_data_witness:
  "rmse_of (calc_rmse [5, 5, 5] None scenario_a) = Inr (Some [0, 1, 1]) \<and>
   map_sum id (\<lambda>s. (best_rupture s, min_rmse s)) (seq (calc_rmse [5, 5, 5] None scenario_a) find_best_fit)
     = Inr (Some (rup 7 110 (-8)), Some 0) \<and>
   map_sum id (\<lambda>s. (fitted_ruptures s, not_enough \<in> set (stdout s)))
     (seq (calc_rmse [5, 5, 5] None scenario_a) (\<lambda>s. seq (find_best_fit s) (uncertainty_model (49 / 25))))
     = Inr (Some [rup 7 110 (-8), rup 7 111 (-8), rup 8 110 (-8)], True)"
proof -
  let ?s = "scenario_a\<lparr>mmi_obs := Some [5, 5, 5], sum_squares_list := Some [0, 3, 3],
                      rmse := Some [0, 1, 1]\<rparr>"
  let ?s2 = "?s\<lparr>best_rupture := Some (rup 7 110 (-8)), min_rmse := Some 0\<rparr>"
  have f: "find_best_fit ?s = Inr ?s2"
    by (simp add: find_best_fit_def np_argmin_def getitem_def scenario_a_def store_def)
  have h: "mmi_obs ?s2 = Some [5, 5, 5]" "length [5, 5, 5 :: real] \<le> 6" "rmse ?s2 = Some [0, 1, 1]"
    by simp_all
  have i: "filter (\<lambda>i. [0, 1, 1 :: real] ! i < 10 ^ 24) [0..<length [0, 1, 1 :: real]] = [0, 1, 2]"
    by (simp add: upt_rec nth_Cons')
  have imp: "(\<exists>i < length [0, 1, 1 :: real]. [0, 1, 1 :: real] ! i < 10 ^ 24) \<and>
        length [0, 1, 1 :: real] \<le> length (rupture_list ?s2) \<longrightarrow>
       (\<exists>s'. uncertainty_model (49 / 25) ?s2 = Inr s' \<and>
          fitted_ruptures s' =
            Some (map (\<lambda>i. rupture_list ?s2 ! i)
                   (filter (\<lambda>i. [0, 1, 1 :: real] ! i < 10 ^ 24) [0..<length [0, 1, 1 :: real]])) \<and>
          not_enough \<in> set (stdout s') \<and> sigma s' = sigma ?s2 \<and> uncert_fun s' = uncert_fun ?s2)"
    using insufficient_data [OF h, of "49 / 25"] by (rule conjunct2)
  have "\<exists>i < length [0, 1, 1 :: real]. [0, 1, 1 :: real] ! i < 10 ^ 24"
    by (rule exI [of _ 0]) simp
  moreover have "length [0, 1, 1 :: real] \<le> length (rupture_list ?s2)"
    by (simp add: scenario_a_def store_def)
  ultimately obtain s' where s': "uncertainty_model (49 / 25) ?s2 = Inr s'"
      "fitted_ruptures s' =
            Some (map (\<lambda>i. rupture_list ?s2 ! i)
                   (filter (\<lambda>i. [0, 1, 1 :: real] ! i < 10 ^ 24) [0..<length [0, 1, 1 :: real]]))"
      "not_enough \<in> set (stdout s')"
    using imp by blast
  have fr: "fitted_ruptures s' = Some [rup 7 110 (-8), rup 7 111 (-8), rup 8 110 (-8)]"
    using s'(2) unfolding i by (simp add: scenario_a_def store_def)
  show ?thesis
    by (simp add: scenario_a_rmse f s'(1) fr s'(3) rmse_of_def)
qed

lemma np_argmin_Min:
  assumes "r \<noteq> []"
  shows "\<exists>k. np_argmin r = Inr k \<and> k < length r \<and> r ! k = Min (set r)"
proof -
  obtain k where k: "np_argmin r = Inr k" "k < length r" "\<forall>j < length r. r ! k \<le> r ! j"
    using np_argmin_spec [OF assms] by blast
  have "Min (set r) = r ! k"
  proof (rule Min_eqI)
    show "finite (set r)" by simp
    show "r ! k \<in> set r" using k(2) by simp
    fix y assume "y \<in> set r"
    then show "r ! k \<le> y" using k(3) by (auto simp: in_set_conv_nth)
  qed
  with k show ?thesis by auto
qed

text \<open>
  With more than six observations, a strictly positive minimum misfit and a positive
  quantile, the accepted indices are exactly those whose misfit is strictly below
  min + (min squared / degrees of freedom) * z, and the index that \<open>np.argmin\<close> returns
  is among them.
\<close>

theorem best_fit_accepted:
  assumes "mmi_obs s = Some obs" "6 < length obs" "rmse s = Some r" "r \<noteq> []"
    and "0 < Min (set r)" "0 < z"
  shows "\<exists>s1 indices k. select_indices z s = Inr (s1, indices) \<and> np_argmin r = Inr k \<and>
     k \<in> set indices \<and>
     indices = filter (\<lambda>i. r ! i < Min (set r) + (Min (set r)) ^ 2 / (real (length obs) - 6) * z)
                 [0..<length r]"
proof -
  let ?m = "Min (set r)"
  let ?sg = "?m ^ 2 / (real (length obs) - 6)"
  have d: "0 < real (length obs) - 6" using assms(2) by simp
  have sg: "0 < ?sg" using assms(5) d by simp
  have p: "ppf z \<lparr>loc = ?m, scale = ?sg\<rparr> = Some (?m + ?sg * z)"
    using sg by (simp add: ppf_def)
  obtain k where k: "np_argmin r = Inr k" "k < length r" "r ! k = ?m"
    using np_argmin_Min [OF assms(4)] by blast
  have "0 < ?sg * z" using sg assms(6) by (rule mult_pos_pos)
  then have "r ! k < ?m + ?sg * z" using k(3) by simp
  then have "k \<in> set (filter (\<lambda>i. r ! i < ?m + ?sg * z) [0..<length r])"
    using k(2) by simp
  then show ?thesis
    using k(1) by (simp add: select_indices_large [OF assms(1-4)] p where_less_def)
qed

theorem best_fit_accepted_witness:
  "map_sum id snd (seq (calc_rmse obs7 None scenario_b) (select_indices (49 / 25))) = Inr [0]"
proof -
  let ?s = "scenario_b\<lparr>mmi_obs := Some obs7, sum_squares_list := Some [7 / 25, 7, 7],
                      rmse := Some [1 / 5, 1, 1]\<rparr>"
  have m: "Min (set [1 / 5, 1, 1 :: real]) = 1 / 5" by simp
  have h: "mmi_obs ?s = Some obs7" "6 < length obs7" "rmse ?s = Some [1 / 5, 1, 1]" "[1 / 5, 1, 1 :: real] \<noteq> []"
    "0 < Min (set [1 / 5, 1, 1 :: real])" "0 < (49 / 25 :: real)"
    by (simp_all add: obs7_def)
  from best_fit_accepted [OF h] obtain s1 indices where
    s: "select_indices (49 / 25) ?s = Inr (s1, indices)"
    and i: "indices = filter (\<lambda>i. [1 / 5, 1, 1 :: real] ! i
               < Min (set [1 / 5, 1, 1]) + (Min (set [1 / 5, 1, 1])) ^ 2 / (real (length obs7) - 6) * (49 / 25))
                 [0..<length [1 / 5, 1, 1 :: real]]"
    by blast
  have "indices = [0]"
    unfolding i m by (simp add: obs7_def upt_rec nth_Cons' power2_eq_square)
  then show ?thesis by (simp add: scenario_b_rmse s)
qed

subsection \<open>Parameter-slice visualizer\<close>

lemma concat_cells:
  "concat (map (\<lambda>a. concat (map (\<lambda>b. if P a b then [g a b] else []) ys)) xs)
     = map (\<lambda>(a, b). g a b) (filter (\<lambda>(a, b). P a b) (List.product xs ys))"
proof (induction xs)
  case Nil
  then show ?case by simp
next
  case (Cons a xs)
  have "concat (map (\<lambda>b. if P a b then [g a b] else []) ys)
      = map (\<lambda>(a, b). g a b) (filter (\<lambda>(a, b). P a b) (map (Pair a) ys))"
    by (induction ys) simp_all
  with Cons show ?case by simp
qed

lemma fold_min_Min: "L \<noteq> [] \<Longrightarrow> fold min (tl L) (hd L) = Min (set (L :: real list))"
  by (cases L) (simp_all add: Min.set_eq_fold del: set_simps)

lemma set_intersect1d: "set (intersect1d j k) = set j \<inter> set k"
  by (auto simp: intersect1d_def)

lemma set_where_eq: "set (where_eq xs v) = {p. p < length xs \<and> xs ! p = v}"
  by (auto simp: where_eq_def)

lemma cells_eq:
  assumes "length yv = length xv"
  shows "cells xv yv sub =
     map (\<lambda>(a, b). (a, b, Min ((\<lambda>p. sub ! p) ` match xv yv a b)))
       (filter (\<lambda>(a, b). match xv yv a b \<noteq> {}) (List.product (np_unique xv) (np_unique yv)))"
proof -
  have I: "set (intersect1d (where_eq xv a) (where_eq yv b)) = match xv yv a b" for a b
    using assms by (auto simp: set_intersect1d set_where_eq match_def)
  have c: "cell xv yv sub a b =
      (if match xv yv a b \<noteq> {} then [(a, b, Min ((\<lambda>p. sub ! p) ` match xv yv a b))] else [])" for a b
  proof (cases "intersect1d (where_eq xv a) (where_eq yv b) = []")
    case True
    with I [of a b] show ?thesis by (simp add: cell_def)
  next
    case False
    then have ne: "map (\<lambda>p. sub ! p) (intersect1d (where_eq xv a) (where_eq yv b)) \<noteq> []" by simp
    have "match xv yv a b \<noteq> {}" using False I [of a b] by auto
    then show ?thesis
      using False by (simp add: cell_def Let_def fold_min_Min [OF ne] I del: map_map)
  qed
  show ?thesis
    unfolding cells_def c by (rule concat_cells)
qed

lemma distinct_np_unique: "distinct (np_unique xs)" and set_np_unique: "set (np_unique xs) = set xs"
  by (simp_all add: np_unique_def)

lemma cells_pairs:
  assumes "length yv = length xv"
  shows "zip (map fst (cells xv yv sub)) (map (fst \<circ> snd) (cells xv yv sub))
       = filter (\<lambda>(a, b). match xv yv a b \<noteq> {}) (List.product (np_unique xv) (np_unique yv))"
  unfolding cells_eq [OF assms] by (simp add: zip_map_map case_prod_beta comp_def zip_same_conv_map)

lemma zip3_unzip:
  "zip (map fst cs) (zip (map (fst \<circ> snd) cs) (map (snd \<circ> snd) cs)) = cs"
  by (induction cs) auto

lemma set_cells:
  assumes "length yv = length xv"
  shows "set (cells xv yv sub) =
     {(a, b, c). match xv yv a b \<noteq> {} \<and> c = Min ((\<lambda>p. sub ! p) ` match xv yv a b)}"
proof -
  have m: "a \<in> set xv \<and> b \<in> set yv" if "p \<in> match xv yv a b" for a b p
    using assms that by (auto simp: match_def)
  show ?thesis
    unfolding cells_eq [OF assms] using m by (fastforce simp: set_np_unique image_iff)
qed

lemma distinct_cells_pairs:
  assumes "length yv = length xv"
  shows "distinct (zip (map fst (cells xv yv sub)) (map (fst \<circ> snd) (cells xv yv sub)))"
  unfolding cells_pairs [OF assms] by (simp add: distinct_product distinct_np_unique)

lemma lookup_cases:
  assumes "lookup k = Inr j"
  shows "j < 6 \<and> length (parameter_space s ! j) = length (rupture_list s)"
proof -
  have "j \<in> {0, 1, 2, 3, 4, 5}"
    using assms by (auto simp: lookup_def parameter_dict_def split: option.splits if_splits)
  then show ?thesis by (auto simp: parameter_space_def)
qed

lemma take_indices_Inr_iff:
  "take_indices r is = Inr sub \<longleftrightarrow> (\<forall>i \<in> set is. i < length r) \<and> sub = map (\<lambda>i. r ! i) is"
  by (auto simp: take_indices_def list_all_iff)

lemma slice_data_Inr:
  assumes "slice_data x y z zvalue s = Inr (xv, yv, cs)"
  shows "\<exists>zi xi yi r. lookup z = Inr zi \<and> lookup x = Inr xi \<and> lookup y = Inr yi \<and> rmse s = Some r \<and>
     (\<forall>i \<in> set (where_eq (parameter_space s ! zi) zvalue). i < length r) \<and>
     xv = map (\<lambda>i. parameter_space s ! xi ! i) (where_eq (parameter_space s ! zi) zvalue) \<and>
     yv = map (\<lambda>i. parameter_space s ! yi ! i) (where_eq (parameter_space s ! zi) zvalue) \<and>
     cs = cells xv yv (map (\<lambda>i. r ! i) (where_eq (parameter_space s ! zi) zvalue))"
  using assms
  by (auto simp: slice_data_def seq_Inr_iff Let_def attr_def take_indices_Inr_iff split: option.splits)

lemma slice_data_ok:
  assumes "lookup z = Inr zi" "lookup x = Inr xi" "lookup y = Inr yi" "rmse s = Some r"
    and "\<forall>i \<in> set (where_eq (parameter_space s ! zi) zvalue). i < length r"
  shows "slice_data x y z zvalue s =
     Inr (map (\<lambda>i. parameter_space s ! xi ! i) (where_eq (parameter_space s ! zi) zvalue),
          map (\<lambda>i. parameter_space s ! yi ! i) (where_eq (parameter_space s ! zi) zvalue),
          cells (map (\<lambda>i. parameter_space s ! xi ! i) (where_eq (parameter_space s ! zi) zvalue))
                (map (\<lambda>i. parameter_space s ! yi ! i) (where_eq (parameter_space s ! zi) zvalue))
                (map (\<lambda>i. r ! i) (where_eq (parameter_space s ! zi) zvalue)))"
  using assms by (simp add: slice_data_def Let_def take_indices_def list_all_iff)

lemma slice_res_Inr:
  assumes "uncertainty_slice_res dx dy env q x y z zvalue s = Inr ((xs, ys, ms), s')"
  shows "\<exists>xv yv cs. slice_data x y z zvalue s = Inr (xv, yv, cs) \<and>
     xs = map fst cs \<and> ys = map (fst \<circ> snd) cs \<and> ms = map (snd \<circ> snd) cs \<and>
     render dx dy env q xv yv xs ys ms (print (PList ''rmse_subset'' ms) s) = Inr s'"
  using assms
  by (auto simp: uncertainty_slice_res_def seq_Inr_iff Let_def split: prod.splits)

lemma match_indices:
  shows "(\<lambda>p. map (\<lambda>i. r ! i) is ! p) ` match (map X is) (map Y is) a b
       = {r ! i | i. i \<in> set is \<and> X i = a \<and> Y i = b}"
    and "match (map X is) (map Y is) a b \<noteq> {} \<longleftrightarrow> (\<exists>i \<in> set is. X i = a \<and> Y i = b)"
proof -
  show "(\<lambda>p. map (\<lambda>i. r ! i) is ! p) ` match (map X is) (map Y is) a b
       = {r ! i | i. i \<in> set is \<and> X i = a \<and> Y i = b}"
  proof (intro set_eqI iffI)
    fix c assume "c \<in> (\<lambda>p. map (\<lambda>i. r ! i) is ! p) ` match (map X is) (map Y is) a b"
    then obtain p where "p < length is" "X (is ! p) = a" "Y (is ! p) = b" "c = r ! (is ! p)"
      by (auto simp: match_def)
    then show "c \<in> {r ! i | i. i \<in> set is \<and> X i = a \<and> Y i = b}"
      by (auto intro!: exI [of _ "is ! p"])
  next
    fix c assume "c \<in> {r ! i | i. i \<in> set is \<and> X i = a \<and> Y i = b}"
    then obtain i where i: "i \<in> set is" "X i = a" "Y i = b" "c = r ! i" by auto
    then obtain p where "p < length is" "is ! p = i" by (auto simp: in_set_conv_nth)
    with i show "c \<in> (\<lambda>p. map (\<lambda>i. r ! i) is ! p) ` match (map X is) (map Y is) a b"
      by (auto simp: match_def image_iff intro!: bexI [of _ p])
  qed
  show "match (map X is) (map Y is) a b \<noteq> {} \<longleftrightarrow> (\<exists>i \<in> set is. X i = a \<and> Y i = b)"
  proof
    assume "match (map X is) (map Y is) a b \<noteq> {}"
    then obtain p where "p < length is" "X (is ! p) = a" "Y (is ! p) = b"
      by (auto simp: match_def)
    then show "\<exists>i \<in> set is. X i = a \<and> Y i = b"
      by (intro bexI [of _ "is ! p"]) auto
  next
    assume "\<exists>i \<in> set is. X i = a \<and> Y i = b"
    then obtain i where i: "i \<in> set is" "X i = a" "Y i = b" by auto
    then obtain p where "p < length is" "is ! p = i" by (auto simp: in_set_conv_nth)
    with i have "p \<in> match (map X is) (map Y is) a b" by (simp add: match_def)
    then show "match (map X is) (map Y is) a b \<noteq> {}" by blast
  qed
qed

lemma slice_raw_data:
  assumes "uncertainty_slice_res dx dy env q x y z zvalue s = Inr ((xs, ys, ms), s')"
  shows "\<exists>xi yi zi r. lookup x = Inr xi \<and> lookup y = Inr yi \<and> lookup z = Inr zi \<and> rmse s = Some r \<and>
     (xs, ys, ms) =
       (let is = where_eq (parameter_space s ! zi) zvalue;
            cs = cells (map (\<lambda>i. parameter_space s ! xi ! i) is)
                       (map (\<lambda>i. parameter_space s ! yi ! i) is) (map (\<lambda>i. r ! i) is)
        in (map fst cs, map (fst \<circ> snd) cs, map (snd \<circ> snd) cs))"
proof -
  obtain xv yv cs where d: "slice_data x y z zvalue s = Inr (xv, yv, cs)"
    and o: "xs = map fst cs" "ys = map (fst \<circ> snd) cs" "ms = map (snd \<circ> snd) cs"
    using slice_res_Inr [OF assms] by blast
  from slice_data_Inr [OF d] o show ?thesis by (auto simp: Let_def)
qed

lemma try_contour_frame:
  "try_contour env q xx yy g s = Inr s' \<Longrightarrow> s' = s \<or> s' = print only_one s"
  by (auto simp: try_contour_def split: sum.splits error.splits)

lemma try_heatmap_frame:
  "try_heatmap env xx yy g s = Inr s' \<Longrightarrow> s' = s \<or> s' = print only_one s"
  by (auto simp: try_heatmap_def split: sum.splits error.splits)

lemma render_alt:
  "render dx dy env q xvalues yvalues xs ys rmse_subset s =
     seq (py_min xvalues) (\<lambda>x0.
     seq (py_max xvalues) (\<lambda>x1.
     seq (py_min yvalues) (\<lambda>y0.
     seq (py_max yvalues) (\<lambda>y1.
     seq (griddata env xs ys rmse_subset
            (fst (mgrid (arange x0 x1 dx) (arange y0 y1 dy)))
            (snd (mgrid (arange x0 x1 dx) (arange y0 y1 dy)))) (\<lambda>rmse_grid.
     seq (try_contour env q (fst (mgrid (arange x0 x1 dx) (arange y0 y1 dy)))
            (snd (mgrid (arange x0 x1 dx) (arange y0 y1 dy))) rmse_grid s) (\<lambda>s2.
       try_heatmap env (fst (mgrid (arange x0 x1 dx) (arange y0 y1 dy)))
            (snd (mgrid (arange x0 x1 dx) (arange y0 y1 dy))) rmse_grid s2))))))"
  by (simp add: render_def case_prod_beta Let_def)

lemma render_frame:
  assumes "render dx dy env q xv yv xs ys ms s = Inr s'"
  shows "s'\<lparr>stdout := stdout s\<rparr> = s"
proof -
  obtain xx yy g s2 where c: "try_contour env q xx yy g s = Inr s2" and h: "try_heatmap env xx yy g s2 = Inr s'"
    using assms by (auto simp: render_alt seq_Inr_iff)
  from try_contour_frame [OF c] try_heatmap_frame [OF h] show ?thesis
    by (auto simp: print_def)
qed

lemma slice_frame_general:
  assumes "uncertainty_slice_res dx dy env q x y z zvalue s = Inr (r, s')"
  shows "s'\<lparr>stdout := stdout s\<rparr> = s"
proof -
  obtain xs ys ms where r: "r = (xs, ys, ms)" by (cases r) auto
  obtain xv yv where "render dx dy env q xv yv xs ys ms (print (PList ''rmse_subset'' ms) s) = Inr s'"
    using slice_res_Inr [OF assms [unfolded r]] by blast
  from render_frame [OF this]
  have "s'\<lparr>stdout := stdout s @ [PList ''rmse_subset'' ms]\<rparr> = s\<lparr>stdout := stdout s @ [PList ''rmse_subset'' ms]\<rparr>"
    by (simp add: print_def)
  then have "(s'\<lparr>stdout := stdout s @ [PList ''rmse_subset'' ms]\<rparr>)\<lparr>stdout := stdout s\<rparr>
      = (s\<lparr>stdout := stdout s @ [PList ''rmse_subset'' ms]\<rparr>)\<lparr>stdout := stdout s\<rparr>"
    by (rule arg_cong)
  then show ?thesis by simp
qed

lemma try_contour_ok:
  assumes "\<forall>xx yy g l1 l2. contour env xx yy g l1 l2 \<in> {None, Some AttributeError, Some ValueError}"
  shows "\<exists>s'. try_contour env q xx yy g s = Inr s'"
proof (cases "sigma s")
  case None
  then show ?thesis by (simp add: try_contour_def)
next
  case (Some sg)
  show ?thesis
  proof (cases "uncert_fun s")
    case None
    with Some show ?thesis by (simp add: try_contour_def)
  next
    case (Some d)
    have "contour env xx yy g sg (ppf q d) \<in> {None, Some AttributeError, Some ValueError}"
      using assms by blast
    with Some \<open>sigma s = Some sg\<close> show ?thesis by (auto simp: try_contour_def)
  qed
qed

lemma try_heatmap_ok:
  assumes "\<forall>xx yy g vmax vmin. heatmap env xx yy g vmax vmin \<in> {None, Some ValueError}"
    and "rmse s = Some r"
  shows "\<exists>s'. try_heatmap env xx yy g s = Inr s'"
proof (cases "r = []")
  case True
  with assms(2) show ?thesis by (simp add: try_heatmap_def py_max_empty)
next
  case False
  have "heatmap env xx yy g (Max (set r)) (Min (set r)) \<in> {None, Some ValueError}"
    using assms(1) by blast
  with False assms(2) show ?thesis by (auto simp: try_heatmap_def py_max_ne py_min_ne)
qed

lemma try_contour_rmse: "try_contour env q xx yy g s = Inr s' \<Longrightarrow> rmse s' = rmse s"
  using try_contour_frame [of env q xx yy g s s'] by (auto simp: print_def)

lemma render_ok:
  assumes "xv \<noteq> []" "yv \<noteq> []" "rmse s = Some r"
    and "\<forall>a b c xx yy. \<exists>g. griddata env a b c xx yy = Inr g"
    and "\<forall>xx yy g l1 l2. contour env xx yy g l1 l2 \<in> {None, Some AttributeError, Some ValueError}"
    and "\<forall>xx yy g vmax vmin. heatmap env xx yy g vmax vmin \<in> {None, Some ValueError}"
  shows "\<exists>s'. render dx dy env q xv yv xs ys ms s = Inr s'"
proof -
  let ?xx = "fst (mgrid (arange (Min (set xv)) (Max (set xv)) dx) (arange (Min (set yv)) (Max (set yv)) dy))"
  let ?yy = "snd (mgrid (arange (Min (set xv)) (Max (set xv)) dx) (arange (Min (set yv)) (Max (set yv)) dy))"
  obtain g where g: "griddata env xs ys ms ?xx ?yy = Inr g" using assms(4) by blast
  obtain s2 where c: "try_contour env q ?xx ?yy g s = Inr s2" using try_contour_ok [OF assms(5)] by blast
  have "rmse s2 = Some r" using try_contour_rmse [OF c] assms(3) by simp
  then obtain s3 where h: "try_heatmap env ?xx ?yy g s2 = Inr s3" using try_heatmap_ok [OF assms(6)] by blast
  show ?thesis
    using assms(1,2) by (simp add: render_alt py_min_ne py_max_ne g c h)
qed

lemma parameter_row:
  assumes "(k, f) \<in> {(''mag'', mag), (''longitude'', longitude), (''latitude'', latitude),
                      (''depth'', depth), (''strike'', strike), (''dip'', dip)}"
  shows "\<exists>j. lookup k = Inr j \<and> parameter_space s ! j = map f (rupture_list s)"
proof -
  have l: "lookup ''mag'' = Inr 0" "lookup ''longitude'' = Inr 1" "lookup ''latitude'' = Inr 2"
    "lookup ''depth'' = Inr 3" "lookup ''strike'' = Inr 4" "lookup ''dip'' = Inr 5"
    by (simp_all add: lookup_def parameter_dict_def)
  have p: "parameter_space s ! 0 = map mag (rupture_list s)"
    "parameter_space s ! 1 = map longitude (rupture_list s)"
    "parameter_space s ! 2 = map latitude (rupture_list s)"
    "parameter_space s ! 3 = map depth (rupture_list s)"
    "parameter_space s ! 4 = map strike (rupture_list s)"
    "parameter_space s ! 5 = map dip (rupture_list s)"
    by (simp_all add: parameter_space_def)
  from assms show ?thesis
  proof (elim insertE emptyE)
    assume "(k, f) = (''mag'', mag)"
    then show ?thesis using l(1) p(1) by simp
  next
    assume "(k, f) = (''longitude'', longitude)"
    then show ?thesis using l(2) p(2) by simp
  next
    assume "(k, f) = (''latitude'', latitude)"
    then show ?thesis using l(3) p(3) by simp
  next
    assume "(k, f) = (''depth'', depth)"
    then show ?thesis using l(4) p(4) by simp
  next
    assume "(k, f) = (''strike'', strike)"
    then show ?thesis using l(5) p(5) by simp
  next
    assume "(k, f) = (''dip'', dip)"
    then show ?thesis using l(6) p(6) by simp
  qed
qed

lemma render_ok_points:
  assumes "xv \<noteq> []" "yv \<noteq> []" "rmse s = Some r"
    and "\<forall>xx yy. \<exists>g. griddata env xs ys ms xx yy = Inr g"
    and "\<forall>xx yy g l1 l2. contour env xx yy g l1 l2 \<in> {None, Some AttributeError, Some ValueError}"
    and "\<forall>xx yy g vmax vmin. heatmap env xx yy g vmax vmin \<in> {None, Some ValueError}"
  shows "\<exists>s'. render dx dy env q xv yv xs ys ms s = Inr s'"
proof -
  let ?xx = "fst (mgrid (arange (Min (set xv)) (Max (set xv)) dx) (arange (Min (set yv)) (Max (set yv)) dy))"
  let ?yy = "snd (mgrid (arange (Min (set xv)) (Max (set xv)) dx) (arange (Min (set yv)) (Max (set yv)) dy))"
  obtain g where g: "griddata env xs ys ms ?xx ?yy = Inr g" using assms(4) by blast
  obtain s2 where c: "try_contour env q ?xx ?yy g s = Inr s2" using try_contour_ok [OF assms(5)] by blast
  have "rmse s2 = Some r" using try_contour_rmse [OF c] assms(3) by simp
  then obtain s3 where h: "try_heatmap env ?xx ?yy g s2 = Inr s3" using try_heatmap_ok [OF assms(6)] by blast
  show ?thesis
    using assms(1,2) by (simp add: render_alt py_min_ne py_max_ne g c h)
qed

lemma cells_nonempty:
  assumes "length yv = length xv" "xv \<noteq> []"
  shows "cells xv yv sub \<noteq> []"
proof -
  have "0 \<in> match xv yv (xv ! 0) (yv ! 0)" using assms by (simp add: match_def)
  then have "(xv ! 0, yv ! 0, Min ((\<lambda>p. sub ! p) ` match xv yv (xv ! 0) (yv ! 0))) \<in> set (cells xv yv sub)"
    unfolding set_cells [OF assms(1)] by auto
  then show ?thesis by auto
qed

text \<open>
  Claim C7. For a slice request whose three parameter names are among the six of the
  parameter dictionary, on an object whose misfit sequence exists and covers the rupture
  list, with at least one candidate whose z-parameter (the magnitude, longitude, latitude,
  depth, strike or dip of the rupture, as the name says) is exactly equal to \<open>zvalue\<close>:
  when the interpolation returns on every non-empty set of data points, the contour call
  returns or raises AttributeError or ValueError and the heatmap calls return or raise
  ValueError, \<open>uncertainty_slice\<close> returns, for every pair of positive grid steps, the
  same three arrays. They have one length and hold, for each (x, y) pair that occurs among
  the candidates whose z-parameter equals \<open>zvalue\<close>, exactly one entry, whose misfit is
  the minimum over all those candidates sharing the pair; no other candidate contributes.
  Every call on this request that returns, with any grid steps and any plotting backend,
  returns these arrays.
\<close>

theorem slice_minimum:
  assumes x: "(x, fx) \<in> {(''mag'', mag), (''longitude'', longitude), (''latitude'', latitude),
                          (''depth'', depth), (''strike'', strike), (''dip'', dip)}"
    and y: "(y, fy) \<in> {(''mag'', mag), (''longitude'', longitude), (''latitude'', latitude),
                          (''depth'', depth), (''strike'', strike), (''dip'', dip)}"
    and z: "(z, fz) \<in> {(''mag'', mag), (''longitude'', longitude), (''latitude'', latitude),
                          (''depth'', depth), (''strike'', strike), (''dip'', dip)}"
    and r: "rmse s = Some r" "length (rupture_list s) \<le> length r"
    and m: "\<exists>i < length (rupture_list s). fz (rupture_list s ! i) = zvalue"
    and g: "\<forall>a b c xx yy. a \<noteq> [] \<longrightarrow> (\<exists>g. griddata env a b c xx yy = Inr g)"
    and c: "\<forall>xx yy g l1 l2. contour env xx yy g l1 l2 \<in> {None, Some AttributeError, Some ValueError}"
    and h: "\<forall>xx yy g vmax vmin. heatmap env xx yy g vmax vmin \<in> {None, Some ValueError}"
  shows "\<exists>xs ys ms.
     length ys = length xs \<and> length ms = length xs \<and> distinct (zip xs ys) \<and>
     set (zip xs (zip ys ms)) =
       {(a, b, c).
          (\<exists>i < length (rupture_list s). fz (rupture_list s ! i) = zvalue \<and>
             fx (rupture_list s ! i) = a \<and> fy (rupture_list s ! i) = b) \<and>
          c = Min {r ! i | i. i < length (rupture_list s) \<and> fz (rupture_list s ! i) = zvalue \<and>
                     fx (rupture_list s ! i) = a \<and> fy (rupture_list s ! i) = b}} \<and>
     (\<forall>dx dy. 0 < dx \<and> 0 < dy \<longrightarrow>
        (\<exists>s'. uncertainty_slice_res dx dy env q x y z zvalue s = Inr ((xs, ys, ms), s'))) \<and>
     (\<forall>dx dy env' q' res s'.
        uncertainty_slice_res dx dy env' q' x y z zvalue s = Inr (res, s') \<longrightarrow> res = (xs, ys, ms))"
proof -
  obtain xi where xi: "lookup x = Inr xi" "parameter_space s ! xi = map fx (rupture_list s)"
    using parameter_row [OF x] by blast
  obtain yi where yi: "lookup y = Inr yi" "parameter_space s ! yi = map fy (rupture_list s)"
    using parameter_row [OF y] by blast
  obtain zi where zi: "lookup z = Inr zi" "parameter_space s ! zi = map fz (rupture_list s)"
    using parameter_row [OF z] by blast
  let ?R = "rupture_list s"
  let ?is = "where_eq (parameter_space s ! zi) zvalue"
  let ?xv = "map (\<lambda>i. parameter_space s ! xi ! i) ?is"
  let ?yv = "map (\<lambda>i. parameter_space s ! yi ! i) ?is"
  let ?sub = "map (\<lambda>i. r ! i) ?is"
  let ?cs = "cells ?xv ?yv ?sub"
  let ?xs = "map fst ?cs" and ?ys = "map (fst \<circ> snd) ?cs" and ?ms = "map (snd \<circ> snd) ?cs"
  have si: "set ?is = {i. i < length ?R \<and> fz (?R ! i) = zvalue}"
    by (auto simp: set_where_eq zi(2))
  have inr: "\<forall>i \<in> set ?is. i < length r" using r(2) by (auto simp: si)
  have d: "slice_data x y z zvalue s = Inr (?xv, ?yv, ?cs)"
    using zi(1) xi(1) yi(1) r(1) inr by (rule slice_data_ok)
  have "set ?is \<noteq> {}" using m by (auto simp: si)
  then have ne: "?xv \<noteq> []" "?yv \<noteq> []" by auto
  have len: "length ?yv = length ?xv" by simp
  have "?cs \<noteq> []" using len ne(1) by (rule cells_nonempty)
  then have xne: "?xs \<noteq> []" by simp
  have gp: "\<forall>xx yy. \<exists>g. griddata env ?xs ?ys ?ms xx yy = Inr g" using g xne by blast
  have run: "\<exists>s'. uncertainty_slice_res dx dy env q x y z zvalue s = Inr ((?xs, ?ys, ?ms), s')" for dx dy
  proof -
    have "rmse (print (PList ''rmse_subset'' ?ms) s) = Some r" using r(1) by (simp add: print_def)
    from render_ok_points [OF ne this gp c h] obtain s'
      where "render dx dy env q ?xv ?yv ?xs ?ys ?ms (print (PList ''rmse_subset'' ?ms) s) = Inr s'"
      by blast
    then have "uncertainty_slice_res dx dy env q x y z zvalue s = Inr ((?xs, ?ys, ?ms), s')"
      by (simp add: uncertainty_slice_res_def d Let_def)
    then show ?thesis by blast
  qed
  have X: "parameter_space s ! xi ! i = fx (?R ! i)" "parameter_space s ! yi ! i = fy (?R ! i)"
    if "i \<in> set ?is" for i
    using that by (simp_all add: si xi(2) yi(2))
  have dst: "distinct (zip ?xs ?ys)" by (rule distinct_cells_pairs [OF len])
  have "set (zip ?xs (zip ?ys ?ms)) = set ?cs" by (simp only: zip3_unzip)
  also have "\<dots> = {(a, b, c). match ?xv ?yv a b \<noteq> {} \<and>
        c = Min ((\<lambda>p. ?sub ! p) ` match ?xv ?yv a b)}"
    by (rule set_cells [OF len])
  also have "\<dots> = {(a, b, c).
       (\<exists>i \<in> set ?is. parameter_space s ! xi ! i = a \<and> parameter_space s ! yi ! i = b) \<and>
       c = Min {r ! i | i. i \<in> set ?is \<and> parameter_space s ! xi ! i = a \<and> parameter_space s ! yi ! i = b}}"
    unfolding match_indices by simp
  also have "\<dots> = {(a, b, c).
       (\<exists>i < length ?R. fz (?R ! i) = zvalue \<and> fx (?R ! i) = a \<and> fy (?R ! i) = b) \<and>
       c = Min {r ! i | i. i < length ?R \<and> fz (?R ! i) = zvalue \<and> fx (?R ! i) = a \<and> fy (?R ! i) = b}}"
  proof -
    have e1: "(\<exists>i \<in> set ?is. parameter_space s ! xi ! i = a \<and> parameter_space s ! yi ! i = b)
        \<longleftrightarrow> (\<exists>i < length ?R. fz (?R ! i) = zvalue \<and> fx (?R ! i) = a \<and> fy (?R ! i) = b)" for a b
      using X by (auto simp: si)
    have e2: "{r ! i | i. i \<in> set ?is \<and> parameter_space s ! xi ! i = a \<and> parameter_space s ! yi ! i = b}
        = {r ! i | i. i < length ?R \<and> fz (?R ! i) = zvalue \<and> fx (?R ! i) = a \<and> fy (?R ! i) = b}" for a b
      using X by (auto simp: si)
    show ?thesis unfolding e1 e2 ..
  qed
  finally have st: "set (zip ?xs (zip ?ys ?ms)) = {(a, b, c).
       (\<exists>i < length ?R. fz (?R ! i) = zvalue \<and> fx (?R ! i) = a \<and> fy (?R ! i) = b) \<and>
       c = Min {r ! i | i. i < length ?R \<and> fz (?R ! i) = zvalue \<and> fx (?R ! i) = a \<and> fy (?R ! i) = b}}" .
  have uniq: "res = (?xs, ?ys, ?ms)"
    if "uncertainty_slice_res dx dy env' q' x y z zvalue s = Inr (res, s')" for dx dy env' q' res s'
    using that by (auto simp: uncertainty_slice_res_def d Let_def seq_Inr_iff)
  show ?thesis
    using dst st run uniq by (intro exI [of _ ?xs] exI [of _ ?ys] exI [of _ ?ms]) simp
qed

text \<open>
  Claim C10 (as amended). For a slice request with valid parameter names, on an object
  whose misfit sequence exists and covers the rupture list, with at least one candidate
  whose z-parameter equals \<open>zvalue\<close>: when the interpolation returns, the contour call
  returns or raises AttributeError or ValueError and the heatmap calls return or raise
  ValueError, \<open>uncertainty_slice\<close> returns the raw arrays and leaves every attribute of
  the object unchanged (only the printed output grows), whether or not an uncertainty
  model exists.
\<close>

theorem slice_frame:
  assumes "lookup z = Inr zi" "lookup x = Inr xi" "lookup y = Inr yi"
    and "rmse s = Some r" "length (rupture_list s) \<le> length r"
    and "\<exists>i < length (rupture_list s). parameter_space s ! zi ! i = zvalue"
    and "\<forall>a b c xx yy. \<exists>g. griddata env a b c xx yy = Inr g"
    and "\<forall>xx yy g l1 l2. contour env xx yy g l1 l2 \<in> {None, Some AttributeError, Some ValueError}"
    and "\<forall>xx yy g vmax vmin. heatmap env xx yy g vmax vmin \<in> {None, Some ValueError}"
  shows "\<exists>xs ys ms s'. uncertainty_slice_res dx dy env q x y z zvalue s = Inr ((xs, ys, ms), s') \<and>
           s'\<lparr>stdout := stdout s\<rparr> = s"
proof -
  let ?is = "where_eq (parameter_space s ! zi) zvalue"
  let ?xv = "map (\<lambda>i. parameter_space s ! xi ! i) ?is"
  let ?yv = "map (\<lambda>i. parameter_space s ! yi ! i) ?is"
  let ?cs = "cells ?xv ?yv (map (\<lambda>i. r ! i) ?is)"
  let ?s1 = "print (PList ''rmse_subset'' (map (snd \<circ> snd) ?cs)) s"
  have si: "set ?is = {i. i < length (rupture_list s) \<and> parameter_space s ! zi ! i = zvalue}"
    using lookup_cases [OF assms(1), of s] by (simp add: set_where_eq)
  have inr: "\<forall>i \<in> set ?is. i < length r" using assms(5) by (auto simp: si)
  have d: "slice_data x y z zvalue s = Inr (?xv, ?yv, ?cs)"
    using assms(1-4) inr by (rule slice_data_ok)
  have "set ?is \<noteq> {}" using assms(6) by (auto simp: si)
  then have ne: "?xv \<noteq> []" "?yv \<noteq> []" by auto
  have "rmse ?s1 = Some r" using assms(4) by (simp add: print_def)
  from render_ok [OF ne this assms(7-9)] obtain s'
    where rn: "render dx dy env q ?xv ?yv (map fst ?cs) (map (fst \<circ> snd) ?cs) (map (snd \<circ> snd) ?cs) ?s1 = Inr s'"
    by blast
  have run: "uncertainty_slice_res dx dy env q x y z zvalue s
      = Inr ((map fst ?cs, map (fst \<circ> snd) ?cs, map (snd \<circ> snd) ?cs), s')"
    by (simp add: uncertainty_slice_res_def d Let_def rn)
  from slice_frame_general [OF run] run show ?thesis by blast
qed

lemma slice_no_match:
  assumes "lookup z = Inr zi" "lookup x = Inr xi" "lookup y = Inr yi" "rmse s = Some r"
    and "zvalue \<notin> set (parameter_space s ! zi)"
  shows "uncertainty_slice_res dx dy env q x y z zvalue s = Inl ValueError"
proof -
  have "set (where_eq (parameter_space s ! zi) zvalue) = {}"
    using assms(5) by (auto simp: set_where_eq)
  then have e: "where_eq (parameter_space s ! zi) zvalue = []" by simp
  have d: "slice_data x y z zvalue s = Inr ([], [], cells [] [] [])"
    using assms(1-4) by (simp add: slice_data_def e Let_def take_indices_def)
  show ?thesis
    by (simp add: uncertainty_slice_res_def d Let_def render_alt py_min_empty)
qed

lemma lookups:
  "lookup ''mag'' = Inr 0" "lookup ''longitude'' = Inr 1" "lookup ''latitude'' = Inr 2"
  by (simp_all add: lookup_def parameter_dict_def)

lemma slice_store_reachable:
  "calc_rmse [5] None
     (store [rup 7 110 (-8), (rup 7 110 (-8))\<lparr>depth := 20\<rparr>, rup 7 111 (-8), rup 8 110 (-8)]
            [[8], [6], [7], [5]]) = Inr slice_store"
proof -
  let ?s = "store [rup 7 110 (-8), (rup 7 110 (-8))\<lparr>depth := 20\<rparr>, rup 7 111 (-8), rup 8 110 (-8)]
            [[8], [6], [7], [5]]"
  have h: "sum_squares_list ?s = None" "[5 :: real] \<noteq> []"
    "\<forall>mmi \<in> set (mmi_list ?s). length mmi = length [5 :: real]"
    by (simp_all add: store_def)
  have r: "sqrt 9 = 3" "sqrt 4 = 2"
    using real_sqrt_abs [of 3] real_sqrt_abs [of 2] by simp_all
  show ?thesis
    by (simp add: calc_rmse_unweighted_eq [OF h]) (simp add: slice_store_def store_def r)
qed

lemma slice_store_ruptures:
  "rupture_list slice_store =
     [rup 7 110 (-8), (rup 7 110 (-8))\<lparr>depth := 20\<rparr>, rup 7 111 (-8), rup 8 110 (-8)]"
  by (simp add: slice_store_def store_def)

lemma slice_store_rmse: "rmse slice_store = Some [3, 1, 2, 0]"
  by (simp add: slice_store_def store_def)

lemma slice_store_params:
  "parameter_space slice_store =
     [[7, 7, 7, 8], [110, 110, 111, 110], [-8, -8, -8, -8],
      [10, 20, 10, 10], [90, 90, 90, 90], [45, 45, 45, 45]]"
  unfolding parameter_space_def slice_store_ruptures by (simp add: rup_def)

lemma slice_store_space:
  "parameter_space slice_store ! 0 = [7, 7, 7, 8]"
  "parameter_space slice_store ! 1 = [110, 110, 111, 110]"
  "parameter_space slice_store ! 2 = [-8, -8, -8, -8]"
  "length (rupture_list slice_store) = 4"
  unfolding slice_store_params slice_store_ruptures by simp_all

lemma cells_Nil: "cells [] [] sub = []"
  by (simp add: cells_def np_unique_def)

lemma where_eq_empty: "v \<notin> set xs \<Longrightarrow> where_eq xs v = []"
  by (auto simp: where_eq_def filter_empty_conv)

text \<open>
  Claim C8, evaluated on the code. For a value of the fixed parameter that no candidate
  has (magnitude 9), the data of lines 301 to 354 is empty and the method fails with
  ValueError at \<open>min(xvalues)\<close> of line 368, before any plotting call and whatever the
  plotting backend does: nothing is returned.
\<close>

theorem slice_no_match_fails:
  "uncertainty_slice env q ''longitude'' ''latitude'' ''mag'' 9 slice_store = Inl ValueError \<and>
   slice_data ''longitude'' ''latitude'' ''mag'' 9 slice_store = Inr ([], [], [])"
proof -
  have n: "9 \<notin> set (parameter_space slice_store ! 0)"
    by (simp add: slice_store_space)
  then have e: "where_eq (parameter_space slice_store ! 0) 9 = []" by (rule where_eq_empty)
  have "\<forall>i \<in> set (where_eq (parameter_space slice_store ! 0) 9). i < length [3, 1, 2, 0 :: real]"
    unfolding e by simp
  from slice_data_ok [OF lookups(1) lookups(2) lookups(3) slice_store_rmse this]
  have d: "slice_data ''longitude'' ''latitude'' ''mag'' 9 slice_store = Inr ([], [], [])"
    unfolding e by (simp add: cells_Nil)
  have "uncertainty_slice env q ''longitude'' ''latitude'' ''mag'' 9 slice_store = Inl ValueError"
    unfolding uncertainty_slice_def
    by (rule slice_no_match [OF lookups(1) lookups(2) lookups(3) slice_store_rmse n])
  with d show ?thesis by simp
qed

lemma where_mag_7: "where_eq [7, 7, 7, 8] 7 = [0, 1, 2]"
  by (simp add: where_eq_def upt_rec nth_Cons')

lemma cells_example: "cells [110, 110, 111] [-8, -8, -8] [3, 1, 2] = [(110, -8, 1), (111, -8, 2)]"
  by (simp add: cells_def np_unique_def cell_def where_eq_def intersect1d_def upt_rec nth_Cons' Let_def)

lemma slice_store_data:
  "slice_data ''longitude'' ''latitude'' ''mag'' 7 slice_store =
     Inr ([110, 110, 111], [-8, -8, -8], [(110, -8, 1), (111, -8, 2)])"
proof -
  have "\<forall>i \<in> set (where_eq (parameter_space slice_store ! 0) 7). i < length [3, 1, 2, 0 :: real]"
    unfolding slice_store_space where_mag_7 by simp
  from slice_data_ok [OF lookups(1) lookups(2) lookups(3) slice_store_rmse this]
  show ?thesis
    unfolding slice_store_space where_mag_7 by (simp add: cells_example)
qed

lemma slice_store_no_model:
  "sigma (print p slice_store) = None" "rmse (print p slice_store) = Some [3, 1, 2, 0]"
  by (simp_all add: print_def slice_store_def store_def)

lemma slice_store_run:
  assumes "\<And>xx yy. \<exists>g. griddata env [110, 111] [-8, -8] [1, 2] xx yy = Inr g"
    and "\<And>xx yy g. heatmap env xx yy g 3 0 = None \<or> heatmap env xx yy g 3 0 = Some ValueError"
  shows "\<exists>s'. uncertainty_slice env q ''longitude'' ''latitude'' ''mag'' 7 slice_store
     = Inr (([110, 111], [-8, -8], [1, 2]), s')"
proof -
  let ?s1 = "print (PList ''rmse_subset'' [1, 2]) slice_store"
  let ?xx = "fst (mgrid (arange 110 111 (1 / 50)) (arange (-8) (-8) (1 / 100)))"
  let ?yy = "snd (mgrid (arange 110 111 (1 / 50)) (arange (-8) (-8) (1 / 100)))"
  obtain g where g: "griddata env [110, 111] [-8, -8] [1, 2] ?xx ?yy = Inr g"
    using assms(1) by blast
  have c: "try_contour env q ?xx ?yy g ?s1 = Inr ?s1"
    by (simp add: try_contour_def slice_store_no_model)
  have h: "\<exists>s'. try_heatmap env ?xx ?yy g ?s1 = Inr s'"
    using assms(2) [of ?xx ?yy g]
    by (auto simp: try_heatmap_def slice_store_no_model py_max_def py_min_def)
  then obtain s' where h': "try_heatmap env ?xx ?yy g ?s1 = Inr s'" by blast
  have "render (1 / 50) (1 / 100) env q [110, 110, 111] [-8, -8, -8] [110, 111] [-8, -8] [1, 2] ?s1 = Inr s'"
    by (simp add: render_alt py_min_def py_max_def g c h')
  then show ?thesis
    by (simp add: uncertainty_slice_def uncertainty_slice_res_def slice_store_data Let_def)
qed

lemma slice_fields_rmse: "rmse slice_fields = Some [3, 1, 2, 0]"
  by (simp add: slice_fields_def store_def)

lemma slice_fields_ruptures:
  "rupture_list slice_fields =
     [\<lparr>mag = 7, longitude = 110, latitude = -8, depth = 10, strike = 90, dip = 45\<rparr>,
      \<lparr>mag = 7, longitude = 111, latitude = -8, depth = 20, strike = 90, dip = 45\<rparr>,
      \<lparr>mag = 7, longitude = 110, latitude = -7, depth = 10, strike = 180, dip = 60\<rparr>,
      \<lparr>mag = 8, longitude = 110, latitude = -8, depth = 10, strike = 90, dip = 45\<rparr>]"
  by (simp add: slice_fields_def store_def)

lemma slice_fields_space:
  "parameter_space slice_fields ! 0 = [7, 7, 7, 8]"
  "parameter_space slice_fields ! 4 = [90, 90, 180, 90]"
  "parameter_space slice_fields ! 5 = [45, 45, 60, 45]"
  unfolding parameter_space_def slice_fields_ruptures by simp_all

lemma lookups_angles: "lookup ''strike'' = Inr 4" "lookup ''dip'' = Inr 5"
  by (simp_all add: lookup_def parameter_dict_def)

lemma cells_angles: "cells [90, 90, 180] [45, 45, 60] [3, 1, 2] = [(90, 45, 1), (180, 60, 2)]"
  by (simp add: cells_def np_unique_def cell_def where_eq_def intersect1d_def upt_rec nth_Cons' Let_def)

lemma slice_fields_data:
  "slice_data ''strike'' ''dip'' ''mag'' 7 slice_fields =
     Inr ([90, 90, 180], [45, 45, 60], [(90, 45, 1), (180, 60, 2)])"
proof -
  have "\<forall>i \<in> set (where_eq (parameter_space slice_fields ! 0) 7). i < length [3, 1, 2, 0 :: real]"
    unfolding slice_fields_space where_mag_7 by simp
  from slice_data_ok [OF lookups(1) lookups_angles(1) lookups_angles(2) slice_fields_rmse this]
  show ?thesis
    unfolding slice_fields_space where_mag_7 by (simp add: cells_angles)
qed

lemma arange_length: "length (arange lo hi step) = nat \<lceil>(hi - lo) / step\<rceil>"
  by (simp add: arange_def)

theorem slice_minimum_witness:
  "map_sum id fst (uncertainty_slice plots_nearest (49 / 25) ''strike'' ''dip'' ''mag'' 7 slice_fields)
     = Inr ([90, 180], [45, 60], [1, 2]) \<and>
   length (arange 90 180 (2 / 100)) = 4500 \<and> length (arange 45 60 (1 / 100)) = 1500 \<and>
   nearest [90, 180] [45, 60] [1, 2] 90 45 = 1 \<and> nearest [90, 180] [45, 60] [1, 2] 179 59 = 2"
proof -
  have x: "(''strike'', strike) \<in> {(''mag'', mag), (''longitude'', longitude), (''latitude'', latitude),
                          (''depth'', depth), (''strike'', strike), (''dip'', dip)}" by simp
  have y: "(''dip'', dip) \<in> {(''mag'', mag), (''longitude'', longitude), (''latitude'', latitude),
                          (''depth'', depth), (''strike'', strike), (''dip'', dip)}" by simp
  have z: "(''mag'', mag) \<in> {(''mag'', mag), (''longitude'', longitude), (''latitude'', latitude),
                          (''depth'', depth), (''strike'', strike), (''dip'', dip)}" by simp
  have l: "length (rupture_list slice_fields) \<le> length [3, 1, 2, 0 :: real]"
    by (simp add: slice_fields_ruptures)
  have m: "\<exists>i < length (rupture_list slice_fields). mag (rupture_list slice_fields ! i) = 7"
    unfolding slice_fields_ruptures by (rule exI [of _ 0]) simp
  have g: "\<forall>a b c xx yy. a \<noteq> [] \<longrightarrow> (\<exists>g. griddata plots_nearest a b c xx yy = Inr g)"
    by (simp add: plots_nearest_def)
  have c: "\<forall>xx yy g l1 l2. contour plots_nearest xx yy g l1 l2 \<in> {None, Some AttributeError, Some ValueError}"
    by (simp add: plots_nearest_def)
  have h: "\<forall>xx yy g vmax vmin. heatmap plots_nearest xx yy g vmax vmin \<in> {None, Some ValueError}"
    by (simp add: plots_nearest_def)
  from slice_minimum [OF x y z slice_fields_rmse l m g c h, of "49 / 25"]
  obtain xs ys ms where
    run: "\<forall>dx dy. 0 < dx \<and> 0 < dy \<longrightarrow>
        (\<exists>s'. uncertainty_slice_res dx dy plots_nearest (49 / 25) ''strike'' ''dip'' ''mag'' 7 slice_fields
           = Inr ((xs, ys, ms), s'))"
    by blast
  have "(0 :: real) < 2 / 100 \<and> (0 :: real) < 1 / 100" by simp
  with run obtain s' where
    r: "uncertainty_slice_res (2 / 100) (1 / 100) plots_nearest (49 / 25) ''strike'' ''dip'' ''mag'' 7 slice_fields
           = Inr ((xs, ys, ms), s')" by blast
  then have e: "(xs, ys, ms) = ([90, 180], [45, 60], [1, 2])"
    by (auto simp: uncertainty_slice_res_def slice_fields_data Let_def seq_Inr_iff)
  have a: "map_sum id fst (uncertainty_slice plots_nearest (49 / 25) ''strike'' ''dip'' ''mag'' 7 slice_fields)
     = Inr ([90, 180], [45, 60], [1, 2])"
    unfolding uncertainty_slice_def r using e by simp
  have b: "length (arange 90 180 (2 / 100)) = 4500" "length (arange 45 60 (1 / 100)) = 1500"
    by (simp_all add: arange_length)
  have n: "nearest [90, 180] [45, 60] [1, 2] 90 45 = 1" "nearest [90, 180] [45, 60] [1, 2] 179 59 = 2"
    by (simp_all add: nearest_def np_argmin_def)
  from a b n show ?thesis by simp
qed

theorem slice_frame_witness:
  "map_sum id (\<lambda>(r, s'). (r, s'\<lparr>stdout := []\<rparr>))
     (uncertainty_slice plots_value_error (49 / 25) ''longitude'' ''latitude'' ''mag'' 7 slice_store)
     = Inr (([110, 111], [-8, -8], [1, 2]), slice_store)"
proof -
  have m: "\<exists>i < length (rupture_list slice_store). parameter_space slice_store ! 0 ! i = 7"
    unfolding slice_store_space by (rule exI [of _ 0]) simp
  have l: "length (rupture_list slice_store) \<le> length [3, 1, 2, 0 :: real]"
    by (simp add: slice_store_space)
  have g: "\<forall>a b c xx yy. \<exists>g. griddata plots_value_error a b c xx yy = Inr g"
    by (simp add: plots_value_error_def plots_ok_def)
  have c: "\<forall>xx yy g l1 l2. contour plots_value_error xx yy g l1 l2 \<in> {None, Some AttributeError, Some ValueError}"
    by (simp add: plots_value_error_def plots_ok_def)
  have h: "\<forall>xx yy g vmax vmin. heatmap plots_value_error xx yy g vmax vmin \<in> {None, Some ValueError}"
    by (simp add: plots_value_error_def plots_ok_def)
  from slice_frame [OF lookups(1) lookups(2) lookups(3) slice_store_rmse l m g c h,
      of "2 / 100" "1 / 100" "49 / 25"]
  obtain xs ys ms s' where
    run: "uncertainty_slice plots_value_error (49 / 25) ''longitude'' ''latitude'' ''mag'' 7 slice_store
       = Inr ((xs, ys, ms), s')"
    and fr: "s'\<lparr>stdout := stdout slice_store\<rparr> = slice_store"
    unfolding uncertainty_slice_def by blast
  obtain s'' where run': "uncertainty_slice plots_value_error (49 / 25) ''longitude'' ''latitude'' ''mag'' 7 slice_store
     = Inr (([110, 111], [-8, -8], [1, 2]), s'')"
    using slice_store_run [of plots_value_error "49 / 25"]
    by (auto simp: plots_value_error_def plots_ok_def)
  have "stdout slice_store = []" by (simp add: slice_store_def store_def)
  with run run' fr show ?thesis by simp
qed

text \<open>
  Claim C10 as stated fails when rendering fails with an exception that the second
  \<open>try\<close> block does not catch (anything but ValueError, for instance the IOError of
  \<open>savefig\<close>): the exception propagates and no raw data is returned.
\<close>

theorem slice_render_error_counterexample:
  "uncertainty_slice plots_other_error (49 / 25) ''longitude'' ''latitude'' ''mag'' 7 slice_store
     = Inl OtherError"
proof -
  let ?s1 = "print (PList ''rmse_subset'' [1, 2]) slice_store"
  let ?xx = "fst (mgrid (arange 110 111 (1 / 50)) (arange (-8) (-8) (1 / 100)))"
  let ?yy = "snd (mgrid (arange 110 111 (1 / 50)) (arange (-8) (-8) (1 / 100)))"
  have g: "griddata plots_other_error [110, 111] [-8, -8] [1, 2] ?xx ?yy = Inr ?xx"
    by (simp add: plots_other_error_def plots_ok_def)
  have c: "try_contour plots_other_error (49 / 25) ?xx ?yy ?xx ?s1 = Inr ?s1"
    by (simp add: try_contour_def slice_store_no_model)
  have h: "try_heatmap plots_other_error ?xx ?yy ?xx ?s1 = Inl OtherError"
    by (simp add: try_heatmap_def slice_store_no_model py_max_def py_min_def
        plots_other_error_def plots_ok_def)
  have "render (1 / 50) (1 / 100) plots_other_error (49 / 25) [110, 110, 111] [-8, -8, -8]
      [110, 111] [-8, -8] [1, 2] ?s1 = Inl OtherError"
    by (simp add: render_alt py_min_def py_max_def g c h)
  then show ?thesis
    by (simp add: uncertainty_slice_def uncertainty_slice_res_def slice_store_data Let_def)
qed

lemma slice_data_matched:
  assumes x: "(x, fx :: rupture \<Rightarrow> real) \<in> {(''mag'', mag), (''longitude'', longitude), (''latitude'', latitude),
                          (''depth'', depth), (''strike'', strike), (''dip'', dip)}"
    and y: "(y, fy :: rupture \<Rightarrow> real) \<in> {(''mag'', mag), (''longitude'', longitude), (''latitude'', latitude),
                          (''depth'', depth), (''strike'', strike), (''dip'', dip)}"
    and z: "(z, fz) \<in> {(''mag'', mag), (''longitude'', longitude), (''latitude'', latitude),
                          (''depth'', depth), (''strike'', strike), (''dip'', dip)}"
    and r: "rmse s = Some r" "length (rupture_list s) \<le> length r"
    and m: "\<exists>i < length (rupture_list s). fz (rupture_list s ! i) = zvalue"
  shows "\<exists>xv yv cs. slice_data x y z zvalue s = Inr (xv, yv, cs) \<and> xv \<noteq> [] \<and> yv \<noteq> [] \<and> cs \<noteq> []"
proof -
  obtain xi where xi: "lookup x = Inr xi" using parameter_row [OF x] by blast
  obtain yi where yi: "lookup y = Inr yi" using parameter_row [OF y] by blast
  obtain zi where zi: "lookup z = Inr zi" "parameter_space s ! zi = map fz (rupture_list s)"
    using parameter_row [OF z] by blast
  let ?is = "where_eq (parameter_space s ! zi) zvalue"
  let ?xv = "map (\<lambda>i. parameter_space s ! xi ! i) ?is"
  let ?yv = "map (\<lambda>i. parameter_space s ! yi ! i) ?is"
  let ?cs = "cells ?xv ?yv (map (\<lambda>i. r ! i) ?is)"
  have si: "set ?is = {i. i < length (rupture_list s) \<and> fz (rupture_list s ! i) = zvalue}"
    by (auto simp: set_where_eq zi(2))
  have inr: "\<forall>i \<in> set ?is. i < length r" using r(2) by (auto simp: si)
  have d: "slice_data x y z zvalue s = Inr (?xv, ?yv, ?cs)"
    using zi(1) xi yi r(1) inr by (rule slice_data_ok)
  have "set ?is \<noteq> {}" using m by (auto simp: si)
  then have ne: "?xv \<noteq> []" "?yv \<noteq> []" by auto
  have "length ?yv = length ?xv" by simp
  then have "?cs \<noteq> []" using ne(1) by (rule cells_nonempty)
  with d ne show ?thesis by blast
qed

text \<open>
  An exception of the rendering that the second \<open>try\<close> block does not catch
  propagates, for every request: with valid parameter names, on an object whose misfit
  sequence exists and covers the rupture list, with at least one candidate whose
  z-parameter equals \<open>zvalue\<close>, when the interpolation returns and the contour call
  returns or raises AttributeError or ValueError, an exception of the heatmap calls that
  is not a ValueError comes out of \<open>uncertainty_slice\<close>, and nothing is returned.
\<close>

theorem render_error_propagates:
  assumes x: "(x, fx :: rupture \<Rightarrow> real) \<in> {(''mag'', mag), (''longitude'', longitude), (''latitude'', latitude),
                          (''depth'', depth), (''strike'', strike), (''dip'', dip)}"
    and y: "(y, fy :: rupture \<Rightarrow> real) \<in> {(''mag'', mag), (''longitude'', longitude), (''latitude'', latitude),
                          (''depth'', depth), (''strike'', strike), (''dip'', dip)}"
    and z: "(z, fz) \<in> {(''mag'', mag), (''longitude'', longitude), (''latitude'', latitude),
                          (''depth'', depth), (''strike'', strike), (''dip'', dip)}"
    and r: "rmse s = Some r" "length (rupture_list s) \<le> length r"
    and m: "\<exists>i < length (rupture_list s). fz (rupture_list s ! i) = zvalue"
    and g: "\<forall>a b c xx yy. a \<noteq> [] \<longrightarrow> (\<exists>g. griddata env a b c xx yy = Inr g)"
    and c: "\<forall>xx yy g l1 l2. contour env xx yy g l1 l2 \<in> {None, Some AttributeError, Some ValueError}"
    and h: "\<forall>xx yy g vmax vmin. heatmap env xx yy g vmax vmin = Some e"
    and e: "e \<noteq> ValueError"
  shows "uncertainty_slice_res dx dy env q x y z zvalue s = Inl e"
proof -
  obtain xv yv cs where d: "slice_data x y z zvalue s = Inr (xv, yv, cs)"
    and ne: "xv \<noteq> []" "yv \<noteq> []" "cs \<noteq> []"
    using slice_data_matched [OF x y z r m] by blast
  let ?xs = "map fst cs" and ?ys = "map (fst \<circ> snd) cs" and ?ms = "map (snd \<circ> snd) cs"
  let ?s1 = "print (PList ''rmse_subset'' ?ms) s"
  let ?xx = "fst (mgrid (arange (Min (set xv)) (Max (set xv)) dx) (arange (Min (set yv)) (Max (set yv)) dy))"
  let ?yy = "snd (mgrid (arange (Min (set xv)) (Max (set xv)) dx) (arange (Min (set yv)) (Max (set yv)) dy))"
  have "?xs \<noteq> []" using ne(3) by simp
  then obtain gr where gr: "griddata env ?xs ?ys ?ms ?xx ?yy = Inr gr" using g by blast
  obtain s2 where c2: "try_contour env q ?xx ?yy gr ?s1 = Inr s2"
    using try_contour_ok [OF c] by blast
  have "rmse ?s1 = Some r" using r(1) by (simp add: print_def)
  then have r2: "rmse s2 = Some r" using try_contour_rmse [OF c2] by simp
  have rne: "r \<noteq> []" using r(2) m by auto
  have "heatmap env ?xx ?yy gr (Max (set r)) (Min (set r)) = Some e" using h by blast
  then have h2: "try_heatmap env ?xx ?yy gr s2 = Inl e"
    using e rne r2 by (cases e) (simp_all add: try_heatmap_def py_max_ne py_min_ne)
  have "render dx dy env q xv yv ?xs ?ys ?ms ?s1 = Inl e"
    using ne(1,2) by (simp add: render_alt py_min_ne py_max_ne gr c2 h2)
  then show ?thesis by (simp add: uncertainty_slice_res_def d Let_def)
qed

theorem render_error_propagates_witness:
  "uncertainty_slice plots_other_error (49 / 25) ''strike'' ''dip'' ''mag'' 7 slice_fields = Inl OtherError"
proof -
  have x: "(''strike'', strike) \<in> {(''mag'', mag), (''longitude'', longitude), (''latitude'', latitude),
                          (''depth'', depth), (''strike'', strike), (''dip'', dip)}" by simp
  have y: "(''dip'', dip) \<in> {(''mag'', mag), (''longitude'', longitude), (''latitude'', latitude),
                          (''depth'', depth), (''strike'', strike), (''dip'', dip)}" by simp
  have z: "(''mag'', mag) \<in> {(''mag'', mag), (''longitude'', longitude), (''latitude'', latitude),
                          (''depth'', depth), (''strike'', strike), (''dip'', dip)}" by simp
  have l: "length (rupture_list slice_fields) \<le> length [3, 1, 2, 0 :: real]"
    by (simp add: slice_fields_ruptures)
  have m: "\<exists>i < length (rupture_list slice_fields). mag (rupture_list slice_fields ! i) = 7"
    unfolding slice_fields_ruptures by (rule exI [of _ 0]) simp
  have g: "\<forall>a b c xx yy. a \<noteq> [] \<longrightarrow> (\<exists>g. griddata plots_other_error a b c xx yy = Inr g)"
    by (simp add: plots_other_error_def plots_ok_def)
  have c: "\<forall>xx yy g l1 l2. contour plots_other_error xx yy g l1 l2 \<in> {None, Some AttributeError, Some ValueError}"
    by (simp add: plots_other_error_def plots_ok_def)
  have h: "\<forall>xx yy g vmax vmin. heatmap plots_other_error xx yy g vmax vmin = Some OtherError"
    by (simp add: plots_other_error_def plots_ok_def)
  have e: "OtherError \<noteq> ValueError" by simp
  from render_error_propagates [OF x y z slice_fields_rmse l m g c h e, of "2 / 100" "1 / 100" "49 / 25"]
  show ?thesis by (simp add: uncertainty_slice_def)
qed

end
